theory Spec2Isabelle
  imports Main "HOL-Library.Word" "HOL-Library.Sublist"
begin

section \<open>Stream administration towards the projectors (package manager, ProjectorAdmin)\<close>

text \<open>
  The theory embeds the stream-admin orchestrator of the indexing repository: the
  timestamp arithmetic (\<open>recomputeRequestTimestamp\<close> and its helpers), the four per-node
  workers (\<open>addInstances\<close>, \<open>deleteInstances\<close>, \<open>repairEndpoint\<close>, \<open>restartStream\<close>) and
  the four orchestrator operations (\<open>AddIndexToStream\<close>, \<open>DeleteIndexFromStream\<close>,
  \<open>RepairEndpointForStream\<close>, \<open>RestartStreamIfNecessary\<close>).

  Go values are modelled as follows. A slice is a list; indexing a slice out of range is a
  runtime panic, written \<open>None\<close>. \<open>uint16\<close>, \<open>uint32\<close> and \<open>uint64\<close> are words of
  that width and a conversion between them is \<open>ucast\<close>. The collaborators behind
  interfaces (the projector client, the topology resolver, the clock, the results channel)
  are inputs of the model.
\<close>

subsection \<open>Constants of the package that the orchestrator's file only uses\<close>

text \<open>
  Modelled from the spec: \<open>common.StreamId\<close>, declared outside the sources, is an
  enumerated identifier of a stream category; it is a number here.
\<close>

type_synonym StreamId = nat

text \<open>
  The constants below are declared in other files of the package and of the projector
  client (the texts of its errors). They are taken as parameters: one record holds them
  all and every function that reads a constant takes the record.
\<close>

record config =
  NUM_VB :: nat
  MAX_PROJECTOR_RETRY_ELAPSED_TIME :: int
  TESTING :: bool
  MAINT_TOPIC :: string
  INIT_TOPIC :: string
  MAINT_STREAM :: StreamId
  INIT_STREAM :: StreamId
  DEFAULT_POOL_NAME :: string
  ErrorTopicExist :: string
  ErrorInconsistentFeed :: string
  ErrorNotMyVbucket :: string
  ErrorInvalidVbucketBranch :: string
  ErrorInvalidKVaddrs :: string
  ErrorTopicMissing :: string
  ErrorInvalidBucket :: string
  ErrorFeeder :: string
  ErrorStreamEnd :: string

subsection \<open>Errors\<close>

text \<open>
  Modelled from the spec: the error codes of the package (the closed set of error kinds
  of the specification), declared outside the sources. These are the codes that the file
  names; \<open>ERROR_OTHER\<close> stands for the codes of the package that the file never names.
\<close>

datatype ErrorCode =
    ERROR_STREAM_REQUEST_ERROR
  | ERROR_STREAM_WRONG_VBUCKET
  | ERROR_STREAM_INVALID_TIMESTAMP
  | ERROR_STREAM_INVALID_KVADDRS
  | ERROR_STREAM_PROJECTOR_TIMEOUT
  | ERROR_STREAM_FEEDER
  | ERROR_STREAM_STREAM_END
  | ERROR_STREAM_INCONSISTENT_VBMAP
  | ERROR_OTHER nat

text \<open>
  Modelled from the spec: the package's \<open>Error\<close> struct and its constructors
  \<open>NewError\<close>, \<open>NewError2\<close> and \<open>NewError4\<close>, declared outside the sources: an error
  kind attached to a failure. The file reads the field \<open>code\<close>; the constructors take,
  at their calls in the file, the code, the wrapped error and the message. The severity
  and the category are \<open>NORMAL\<close> and \<open>STREAM\<close> at every call and are left out; the
  cause is kept as the text of the wrapped error.
\<close>

record Error =
  code :: ErrorCode
  cause :: "string option"
  msg :: string

definition NewError :: "ErrorCode \<Rightarrow> string \<Rightarrow> string \<Rightarrow> Error" where
  "NewError c e m = \<lparr>code = c, cause = Some e, msg = m\<rparr>"

definition NewError2 :: "ErrorCode \<Rightarrow> Error" where
  "NewError2 c = \<lparr>code = c, cause = None, msg = []\<rparr>"

definition NewError4 :: "ErrorCode \<Rightarrow> string \<Rightarrow> Error" where
  "NewError4 c m = \<lparr>code = c, cause = None, msg = m\<rparr>"

text \<open>
  A value of Go's interface type \<open>error\<close>: either the package's own \<open>Error\<close> or an
  error of another dynamic type (\<open>errors.New\<close>, \<open>fmt.Errorf\<close>), of which only the
  text is kept. The type assertion \<open>err.(Error)\<close> panics on the second kind.
\<close>

datatype goerror = ManagerError Error | ForeignError string

fun assertError :: "goerror \<Rightarrow> Error option" where
  "assertError (ManagerError e) = Some e"
| "assertError (ForeignError s) = None"

text \<open>\<open>strings.Contains(s, substr)\<close>: \<open>substr\<close> occurs in \<open>s\<close> as a contiguous run.\<close>

definition Contains :: "string \<Rightarrow> string \<Rightarrow> bool" where
  "Contains s substr = sublist substr s"

subsection \<open>Timestamps\<close>

text \<open>
  Modelled from the spec: \<open>protobuf.TsVbuuid\<close>, declared outside the sources, a bucket's
  timestamp: an ordered collection of entries, one per partition. The file reads it as
  parallel slices (\<open>GetVbnos()\<close>, \<open>Seqnos[i]\<close>, \<open>Vbuuids[i]\<close>, \<open>Snapshots[i]\<close>), with
  partition numbers of type \<open>uint32\<close>, and so does the record. A snapshot is kept as the
  pair that \<open>GetStart\<close> and \<open>GetEnd\<close> read.
\<close>

record TsVbuuid =
  Pool :: string
  Bucket :: string
  Vbnos :: "32 word list"
  Seqnos :: "64 word list"
  Vbuuids :: "64 word list"
  Snapshots :: "(64 word \<times> 64 word) list"

text \<open>
  Modelled from the spec: \<open>NewTsVbuuid\<close> and \<open>Append\<close> of the protobuf package, which
  is not among the sources. A timestamp is an ordered collection of entries
  (partition number, sequence number, vbuuid, snapshot start and end); the constructor
  gives the empty collection for a pool and a bucket (its third argument is a capacity),
  and \<open>Append\<close> adds one entry at the end. \<open>Append\<close> takes the partition number as a
  \<open>uint16\<close>, as every call in the file shows.
\<close>

definition NewTsVbuuid :: "string \<Rightarrow> string \<Rightarrow> nat \<Rightarrow> TsVbuuid" where
  "NewTsVbuuid pool bucket maxvb =
     \<lparr>Pool = pool, Bucket = bucket, Vbnos = [], Seqnos = [], Vbuuids = [], Snapshots = []\<rparr>"

definition Append :: "TsVbuuid \<Rightarrow> 16 word \<Rightarrow> 64 word \<Rightarrow> 64 word \<Rightarrow> 64 word \<Rightarrow> 64 word \<Rightarrow> TsVbuuid" where
  "Append ts vbno seqno vbuuid start end' =
     ts\<lparr>Vbnos := Vbnos ts @ [ucast vbno],
        Seqnos := Seqnos ts @ [seqno],
        Vbuuids := Vbuuids ts @ [vbuuid],
        Snapshots := Snapshots ts @ [(start, end')]\<rparr>"

text \<open>Indexing a Go slice: a panic (\<open>None\<close>) when the index is out of range.\<close>

definition index :: "'a list \<Rightarrow> int \<Rightarrow> 'a option" where
  "index xs i = (if 0 \<le> i \<and> nat i < length xs then Some (xs ! nat i) else None)"

text \<open>\<open>findTimestampForBucket\<close>: the first timestamp of the list for the bucket, or nil.\<close>

fun findTimestampForBucket :: "TsVbuuid list \<Rightarrow> string \<Rightarrow> TsVbuuid option" where
  "findTimestampForBucket [] bucket = None"
| "findTimestampForBucket (ts # timestamps) bucket =
     (if Bucket ts = bucket then Some ts else findTimestampForBucket timestamps bucket)"

text \<open>
  \<open>findTimestampOffsetForVb\<close>: the first position of the partition number in the
  timestamp, and -1 when the timestamp is nil or has no such position. The helper is the
  \<open>range\<close> loop, with the running position.
\<close>

fun findOffsetFrom :: "32 word list \<Rightarrow> 32 word \<Rightarrow> int \<Rightarrow> int" where
  "findOffsetFrom [] vbno i = - 1"
| "findOffsetFrom (ts_vbno # rest) vbno i =
     (if ts_vbno = vbno then i else findOffsetFrom rest vbno (i + 1))"

definition findTimestampOffsetForVb :: "TsVbuuid option \<Rightarrow> 32 word \<Rightarrow> int" where
  "findTimestampOffsetForVb ts vbno =
     (case ts of None \<Rightarrow> - 1 | Some t \<Rightarrow> findOffsetFrom (Vbnos t) vbno 0)"

text \<open>
  The entry that \<open>recomputeRequestTimestamp\<close> appends for position \<open>i\<close> of the request:
  the values are read from the rollback timestamp at \<open>offset\<close> when one was found and
  from the request at \<open>i\<close> otherwise; the partition number is converted to \<open>uint16\<close>.
\<close>

definition appendFrom :: "TsVbuuid \<Rightarrow> 32 word \<Rightarrow> TsVbuuid \<Rightarrow> int \<Rightarrow> TsVbuuid option" where
  "appendFrom newTs vbno src k =
     (case index (Seqnos src) k of None \<Rightarrow> None | Some seqno \<Rightarrow>
      case index (Vbuuids src) k of None \<Rightarrow> None | Some vbuuid \<Rightarrow>
      case index (Snapshots src) k of None \<Rightarrow> None | Some snap \<Rightarrow>
        Some (Append newTs (ucast vbno) seqno vbuuid (fst snap) (snd snap)))"

fun recomputeLoop ::
  "TsVbuuid \<Rightarrow> TsVbuuid option \<Rightarrow> nat \<Rightarrow> 32 word list \<Rightarrow> TsVbuuid \<Rightarrow> TsVbuuid option" where
  "recomputeLoop requestTs rollbackTs i [] newTs = Some newTs"
| "recomputeLoop requestTs rollbackTs i (vbno # rest) newTs =
     (let offset = findTimestampOffsetForVb rollbackTs vbno in
      case (if offset \<noteq> - 1
            then (case rollbackTs of None \<Rightarrow> None
                  | Some rb \<Rightarrow> appendFrom newTs vbno rb offset)
            else appendFrom newTs vbno requestTs (int i)) of
        None \<Rightarrow> None
      | Some newTs' \<Rightarrow> recomputeLoop requestTs rollbackTs (Suc i) rest newTs')"

definition recomputeRequestTimestamp ::
  "config \<Rightarrow> TsVbuuid \<Rightarrow> TsVbuuid list \<Rightarrow> TsVbuuid option" where
  "recomputeRequestTimestamp cfg requestTs rollbackTimestamps =
     (let newTs = NewTsVbuuid (DEFAULT_POOL_NAME cfg) (Bucket requestTs) (length (Vbnos requestTs));
          rollbackTs = findTimestampForBucket rollbackTimestamps (Bucket requestTs)
      in recomputeLoop requestTs rollbackTs 0 (Vbnos requestTs) newTs)"

text \<open>
  The representation invariant of a timestamp: the four slices are parallel. The
  constructor establishes it and \<open>Append\<close> keeps it.
\<close>

definition wf_ts :: "TsVbuuid \<Rightarrow> bool" where
  "wf_ts ts = (length (Seqnos ts) = length (Vbnos ts) \<and> length (Vbuuids ts) = length (Vbnos ts)
     \<and> length (Snapshots ts) = length (Vbnos ts))"

text \<open>
  The words of the specification about rollback reconciliation. \<open>entry ts k\<close> is what the
  timestamp holds at position \<open>k\<close> besides the partition number; \<open>rollbackEntry\<close> is the
  entry that the rollback timestamps propose for a partition of a bucket: the entry at the
  first position of the partition in the first rollback timestamp of that bucket, if any.
\<close>

definition entry :: "TsVbuuid \<Rightarrow> nat \<Rightarrow> 64 word \<times> 64 word \<times> 64 word \<times> 64 word" where
  "entry ts k = (Seqnos ts ! k, Vbuuids ts ! k, fst (Snapshots ts ! k), snd (Snapshots ts ! k))"

definition firstIndex :: "'a list \<Rightarrow> 'a \<Rightarrow> nat" where
  "firstIndex xs x = length (takeWhile (\<lambda>y. y \<noteq> x) xs)"

definition rollbackEntry ::
  "TsVbuuid list \<Rightarrow> string \<Rightarrow> 32 word \<Rightarrow> (64 word \<times> 64 word \<times> 64 word \<times> 64 word) option" where
  "rollbackEntry rollbackTimestamps bucket vbno =
     (case find (\<lambda>t. Bucket t = bucket) rollbackTimestamps of
        None \<Rightarrow> None
      | Some rb \<Rightarrow> if vbno \<in> set (Vbnos rb)
                  then Some (entry rb (firstIndex (Vbnos rb) vbno)) else None)"

text \<open>
  Modelled from the spec: \<open>common.TsVbuuid\<close>, declared outside the sources, the caller's
  timestamp. The file reads it as slices indexed by the partition number, a snapshot
  being an array of two.
\<close>

record cTsVbuuid =
  cBucket :: string
  cSeqnos :: "64 word list"
  cVbuuids :: "64 word list"
  cSnapshots :: "(64 word \<times> 64 word) list"

subsection \<open>Topics\<close>

definition getTopicForStreamId :: "config \<Rightarrow> StreamId \<Rightarrow> string" where
  "getTopicForStreamId cfg sid =
     (if sid = MAINT_STREAM cfg then
        (if \<not> TESTING cfg then MAINT_TOPIC cfg else ''testing '' @ MAINT_TOPIC cfg)
      else if sid = INIT_STREAM cfg then
        (if \<not> TESTING cfg then INIT_TOPIC cfg else ''testing '' @ INIT_TOPIC cfg)
      else [])"

subsection \<open>The invariant check\<close>

text \<open>
  \<open>validateActiveVb\<close>. The two inner loops carry the flag \<open>found\<close>; \<open>None\<close> is the
  early \<open>return false\<close> at a second occurrence. The loop variable \<open>vb\<close> is converted
  with \<open>uint32(vb)\<close> before the comparison.
\<close>

fun scanVbnos :: "32 word \<Rightarrow> 32 word list \<Rightarrow> bool \<Rightarrow> bool option" where
  "scanVbnos vb [] found = Some found"
| "scanVbnos vb (ts_vb # rest) found =
     (if vb = ts_vb then (if found then None else scanVbnos vb rest True)
      else scanVbnos vb rest found)"

fun scanTimestamps :: "string \<Rightarrow> 32 word \<Rightarrow> TsVbuuid list \<Rightarrow> bool \<Rightarrow> bool option" where
  "scanTimestamps bucket vb [] found = Some found"
| "scanTimestamps bucket vb (ts # rest) found =
     (if Bucket ts = bucket then
        (case scanVbnos vb (Vbnos ts) found of
           None \<Rightarrow> None
         | Some found' \<Rightarrow> scanTimestamps bucket vb rest found')
      else scanTimestamps bucket vb rest found)"

definition checkVb :: "string \<Rightarrow> nat \<Rightarrow> TsVbuuid list \<Rightarrow> bool" where
  "checkVb bucket vb activeTs =
     (case scanTimestamps bucket (of_nat vb) activeTs False of
        None \<Rightarrow> False
      | Some found \<Rightarrow> found)"

definition validateActiveVb :: "config \<Rightarrow> string list \<Rightarrow> TsVbuuid list \<Rightarrow> bool" where
  "validateActiveVb cfg buckets activeTs =
     list_all (\<lambda>bucket. list_all (\<lambda>vb. checkVb bucket vb activeTs) [0..<NUM_VB cfg]) buckets"

text \<open>
  The words of the specification: how many entries of the active timestamps cover the
  partition \<open>vb\<close> of a bucket.
\<close>

definition coverage :: "TsVbuuid list \<Rightarrow> string \<Rightarrow> nat \<Rightarrow> nat" where
  "coverage activeTs bucket vb =
     sum_list (map (\<lambda>ts. if Bucket ts = bucket
                          then length (filter (\<lambda>v. unat v = vb) (Vbnos ts)) else 0) activeTs)"

subsection \<open>The per-node workers\<close>

text \<open>
  Modelled from the spec: \<open>protobuf.Instance\<close>, declared outside the sources. An index
  instance is opaque to the orchestrator beyond its identity, which is all that is kept.
\<close>

type_synonym Instance = nat

text \<open>
  \<open>adminWorker\<close>, with the fields that a worker sets and the orchestrator reads. The
  pointer to the admin object stands behind the parameters of the worker functions, and
  the kill channel behind the events \<open>Kill\<close> of the orchestrator and the flag \<open>killed\<close>
  of a pass of the worker's loop.
\<close>

record adminWorker =
  server :: string
  streamId :: StreamId
  activeTimestamps :: "TsVbuuid list"
  err :: "Error option"

text \<open>
  Modelled from the spec: \<open>protobuf.TopicResponse\<close>, declared outside the sources, the
  answer of a projector to a topic request: the active and the rollback timestamps, as
  its two getters read them (both give the empty slice on a nil response).
\<close>

record TopicResponse =
  GetActiveTimestamps :: "TsVbuuid list"
  GetRollbackTimestamps :: "TsVbuuid list"

text \<open>The calls that a worker makes on the projector client of its node.\<close>

datatype rpc =
    MutationTopicRequest string string "TsVbuuid list" "Instance list"
  | DelInstances string "64 word list"
  | RepairEndpoints string "string list"
  | InitialRestartTimestamp string string
  | RestartVbuckets string "TsVbuuid list"


text \<open>
  What one pass of a worker's retry loop meets: whether the kill channel holds a signal at
  the \<open>select\<close>, what the projector answers to the call (the response and the text of the
  error, \<open>None\<close> for a nil error), and the reading of \<open>time.Now().Unix()\<close> after the
  call. A worker's environment is the list of the passes; the list is the fuel of the loop.
\<close>

record attempt =
  killed :: bool
  response :: TopicResponse
  failure :: "string option"
  clock :: int

text \<open>
  How a run ends: the function returned (for a worker: it put itself on the results
  channel), the goroutine panicked, or the run is still going on when its environment
  is used up.
\<close>

datatype 'a run = Done 'a | Panic | Pending

definition call :: "rpc \<Rightarrow> rpc list \<times> 'a \<Rightarrow> rpc list \<times> 'a" where
  "call c r = (c # fst r, snd r)"

definition timeoutError :: Error where
  "timeoutError = NewError4 ERROR_STREAM_PROJECTOR_TIMEOUT ''Projector Call timeout after retry.''"

text \<open>\<open>deleteInstances\<close>: the retry loop, then the function with the client lookup.\<close>

fun deleteLoop ::
  "config \<Rightarrow> adminWorker \<Rightarrow> string \<Rightarrow> 64 word list \<Rightarrow> int \<Rightarrow> attempt list
   \<Rightarrow> rpc list \<times> adminWorker run" where
  "deleteLoop cfg worker topic instances startTime [] = ([], Pending)"
| "deleteLoop cfg worker topic instances startTime (a # rest) =
     (if killed a then ([], Done worker)
      else case failure a of
        None \<Rightarrow> ([DelInstances topic instances], Done (worker\<lparr>err := None\<rparr>))
      | Some errStr \<Rightarrow>
          if Contains errStr (ErrorTopicMissing cfg)
          then ([DelInstances topic instances], Done (worker\<lparr>err := None\<rparr>))
          else if clock a - startTime < MAX_PROJECTOR_RETRY_ELAPSED_TIME cfg
          then call (DelInstances topic instances)
                 (deleteLoop cfg worker topic instances startTime rest)
          else ([DelInstances topic instances], Done (worker\<lparr>err := Some timeoutError\<rparr>)))"

definition deleteInstances ::
  "config \<Rightarrow> adminWorker \<Rightarrow> bool \<Rightarrow> 64 word list \<Rightarrow> int \<Rightarrow> attempt list
   \<Rightarrow> rpc list \<times> adminWorker run" where
  "deleteInstances cfg worker hasClient instances startTime attempts =
     (if \<not> hasClient then ([], Done worker)
      else deleteLoop cfg worker (getTopicForStreamId cfg (streamId worker))
             instances startTime attempts)"

text \<open>\<open>repairEndpoint\<close>.\<close>

fun repairLoop ::
  "config \<Rightarrow> adminWorker \<Rightarrow> string \<Rightarrow> string \<Rightarrow> int \<Rightarrow> attempt list
   \<Rightarrow> rpc list \<times> adminWorker run" where
  "repairLoop cfg worker topic endpoint startTime [] = ([], Pending)"
| "repairLoop cfg worker topic endpoint startTime (a # rest) =
     (if killed a then ([], Done worker)
      else case failure a of
        None \<Rightarrow> ([RepairEndpoints topic [endpoint]], Done (worker\<lparr>err := None\<rparr>))
      | Some errStr \<Rightarrow>
          if Contains errStr (ErrorTopicMissing cfg)
          then ([RepairEndpoints topic [endpoint]], Done (worker\<lparr>err := None\<rparr>))
          else if clock a - startTime < MAX_PROJECTOR_RETRY_ELAPSED_TIME cfg
          then call (RepairEndpoints topic [endpoint])
                 (repairLoop cfg worker topic endpoint startTime rest)
          else ([RepairEndpoints topic [endpoint]], Done (worker\<lparr>err := Some timeoutError\<rparr>)))"

definition repairEndpoint ::
  "config \<Rightarrow> adminWorker \<Rightarrow> bool \<Rightarrow> string \<Rightarrow> int \<Rightarrow> attempt list
   \<Rightarrow> rpc list \<times> adminWorker run" where
  "repairEndpoint cfg worker hasClient endpoint startTime attempts =
     (if \<not> hasClient then ([], Done worker)
      else repairLoop cfg worker (getTopicForStreamId cfg (streamId worker))
             endpoint startTime attempts)"

text \<open>
  The recomputation of every request timestamp, shared by \<open>shouldRetryAddInstances\<close>
  and \<open>shouldRetryRestartVbuckets\<close>; a panic of one recomputation is a panic of the loop.
\<close>

fun recomputeAll :: "config \<Rightarrow> TsVbuuid list \<Rightarrow> TsVbuuid list \<Rightarrow> TsVbuuid list option" where
  "recomputeAll cfg [] rollbackTimestamps = Some []"
| "recomputeAll cfg (ts # rest) rollbackTimestamps =
     (case recomputeRequestTimestamp cfg ts rollbackTimestamps of
        None \<Rightarrow> None
      | Some ts' \<Rightarrow>
          (case recomputeAll cfg rest rollbackTimestamps of
             None \<Rightarrow> None
           | Some rest' \<Rightarrow> Some (ts' # rest')))"

text \<open>
  \<open>shouldRetryAddInstances\<close>: \<open>Inl\<close> is the error with which the worker ends, \<open>Inr\<close> the
  timestamps of the next request, \<open>None\<close> a panic.
\<close>

definition shouldRetryAddInstances ::
  "config \<Rightarrow> TsVbuuid list \<Rightarrow> TopicResponse \<Rightarrow> string \<Rightarrow> (Error + TsVbuuid list) option" where
  "shouldRetryAddInstances cfg requestTs resp errStr =
     (if Contains errStr (ErrorTopicExist cfg)
        then Some (Inl (NewError ERROR_STREAM_REQUEST_ERROR errStr []))
      else if Contains errStr (ErrorInconsistentFeed cfg)
        then Some (Inl (NewError ERROR_STREAM_REQUEST_ERROR errStr []))
      else if Contains errStr (ErrorNotMyVbucket cfg)
        then Some (Inl (NewError ERROR_STREAM_WRONG_VBUCKET errStr []))
      else if Contains errStr (ErrorInvalidVbucketBranch cfg)
        then Some (Inl (NewError ERROR_STREAM_INVALID_TIMESTAMP errStr []))
      else if Contains errStr (ErrorInvalidKVaddrs cfg)
        then Some (Inl (NewError ERROR_STREAM_INVALID_KVADDRS errStr []))
      else map_option Inr (recomputeAll cfg requestTs (GetRollbackTimestamps resp)))"


text \<open>The retry loop of \<open>addInstances\<close>.\<close>

fun addLoop ::
  "config \<Rightarrow> adminWorker \<Rightarrow> string \<Rightarrow> Instance list \<Rightarrow> int \<Rightarrow> TsVbuuid list \<Rightarrow> attempt list
   \<Rightarrow> rpc list \<times> adminWorker run" where
  "addLoop cfg worker topic instances startTime timestamps [] = ([], Pending)"
| "addLoop cfg worker topic instances startTime timestamps (a # rest) =
     (if killed a then ([], Done worker)
      else case failure a of
        None \<Rightarrow>
          ([MutationTopicRequest topic ''dataport'' timestamps instances],
           Done (worker\<lparr>activeTimestamps := GetActiveTimestamps (response a), err := None\<rparr>))
      | Some errStr \<Rightarrow>
          (case shouldRetryAddInstances cfg timestamps (response a) errStr of
             None \<Rightarrow> ([MutationTopicRequest topic ''dataport'' timestamps instances], Panic)
           | Some (Inl e) \<Rightarrow>
               ([MutationTopicRequest topic ''dataport'' timestamps instances],
                Done (worker\<lparr>activeTimestamps := GetActiveTimestamps (response a),
                             err := Some e\<rparr>))
           | Some (Inr timestamps') \<Rightarrow>
               if clock a - startTime < MAX_PROJECTOR_RETRY_ELAPSED_TIME cfg
               then call (MutationTopicRequest topic ''dataport'' timestamps instances)
                      (addLoop cfg worker topic instances startTime timestamps' rest)
               else ([MutationTopicRequest topic ''dataport'' timestamps instances],
                     Done (worker\<lparr>err := Some timeoutError\<rparr>))))"







subsection \<open>The orchestrator\<close>

text \<open>
  What an operation of the orchestrator does, as the events that its collaborators see:
  the call of the topology resolver, the start of a worker with its job, the receipt of a
  worker from the results channel, a kill signal to the worker registered under a server,
  the invariant check with its result, and the call of \<open>monitorStream\<close>.
\<close>

datatype job =
    AddInstances "Instance list" "string list" "cTsVbuuid list"
  | DeleteInstances "64 word list"
  | RepairEndpoint string
  | RestartStream "TsVbuuid list"

datatype event =
    GetNodeListForBuckets "string list"
  | GetNodeListForTimestamps "cTsVbuuid list"
  | Spawn adminWorker job
  | Receive adminWorker
  | Kill string
  | ValidateActiveVb bool
  | MonitorStream StreamId "TsVbuuid list"

text \<open>
  The environment of one round: the answer of the topology resolver (an error, or the map
  of the nodes as its pairs in the order of the iteration) and the workers in the order in
  which the results channel delivers them. The rounds of a call are a list, which is the
  fuel of the retry loop: a call that uses up its rounds, or that waits on a results
  channel that delivers nothing more, is \<open>Pending\<close>. The orchestrator sends kill
  signals only after the last receipt of a round, so what it receives in a round does not
  depend on them.
\<close>

record 'n round =
  resolved :: "goerror + 'n"
  donech :: "adminWorker list"

definition newWorker :: "string \<Rightarrow> StreamId \<Rightarrow> adminWorker" where
  "newWorker srv sid = \<lparr>server = srv, streamId = sid, activeTimestamps = [], err = None\<rparr>"

definition andThen :: "event list \<Rightarrow> event list \<times> 'a \<Rightarrow> event list \<times> 'a" where
  "andThen evs r = (evs @ fst r, snd r)"

text \<open>
  The start of a round of the three operations that ask for the nodes of the buckets: the
  call of the resolver, then one worker per value of its map, all with the same job.
\<close>

definition startRound :: "StreamId \<Rightarrow> string list \<Rightarrow> job \<Rightarrow> (string \<times> string) list \<Rightarrow> event list" where
  "startRound sid buckets j nodes =
     GetNodeListForBuckets buckets # map (\<lambda>srv. Spawn (newWorker srv sid) j) (map snd nodes)"

text \<open>
  The loop \<open>for len(workers) != 0\<close>, which the four operations share: \<open>workers\<close> are
  the keys of the map of the workers not yet received. A worker without error is taken off
  the map, and its active timestamps are added; at the first worker with an error the
  others still on the map get the kill signal and the loop is left with that error.
  (\<open>DeleteIndexFromStream\<close> and \<open>RepairEndpointForStream\<close> do not read the timestamps.)
\<close>

datatype wait = AllDone "TsVbuuid list" | Failed Error | Starved

fun waitWorkers :: "string list \<Rightarrow> TsVbuuid list \<Rightarrow> adminWorker list \<Rightarrow> event list \<times> wait" where
  "waitWorkers [] activeTs arrivals = ([], AllDone activeTs)"
| "waitWorkers (s # ss) activeTs [] = ([], Starved)"
| "waitWorkers (s # ss) activeTs (worker # rest) =
     (case err worker of
        None \<Rightarrow>
          andThen [Receive worker]
            (waitWorkers (removeAll (server worker) (s # ss))
               (activeTs @ activeTimestamps worker) rest)
      | Some e \<Rightarrow>
          (Receive worker # map Kill (removeAll (server worker) (s # ss)), Failed e))"

text \<open>\<open>AddIndexToStream\<close>: the loop \<open>for shouldRetry\<close>, then the function.\<close>

fun addIndexRounds ::
  "config \<Rightarrow> StreamId \<Rightarrow> string list \<Rightarrow> Instance list \<Rightarrow> cTsVbuuid list
   \<Rightarrow> (string \<times> string) list round list \<Rightarrow> event list \<times> goerror option run" where
  "addIndexRounds cfg sid buckets instances requestTimestamps [] = ([], Pending)"
| "addIndexRounds cfg sid buckets instances requestTimestamps (r # rs) =
     (case resolved r of
        Inl e \<Rightarrow> ([GetNodeListForBuckets buckets], Done (Some e))
      | Inr nodes \<Rightarrow>
          (let started = startRound sid buckets
                           (AddInstances instances buckets requestTimestamps) nodes;
               waited = waitWorkers (remdups (map snd nodes)) [] (donech r)
           in case snd waited of
                Starved \<Rightarrow> (started @ fst waited, Pending)
              | Failed e \<Rightarrow>
                  if code e \<noteq> ERROR_STREAM_WRONG_VBUCKET \<and>
                     code e \<noteq> ERROR_STREAM_INVALID_TIMESTAMP \<and>
                     code e \<noteq> ERROR_STREAM_INVALID_KVADDRS \<and>
                     code e \<noteq> ERROR_STREAM_PROJECTOR_TIMEOUT
                  then (started @ fst waited, Done (Some (ManagerError e)))
                  else andThen (started @ fst waited)
                         (addIndexRounds cfg sid buckets instances requestTimestamps rs)
              | AllDone activeTs \<Rightarrow>
                  if validateActiveVb cfg buckets activeTs
                  then (started @ fst waited @
                          [ValidateActiveVb True, MonitorStream sid activeTs], Done None)
                  else andThen (started @ fst waited @ [ValidateActiveVb False])
                         (addIndexRounds cfg sid buckets instances requestTimestamps rs)))"

definition AddIndexToStream ::
  "config \<Rightarrow> StreamId \<Rightarrow> string list \<Rightarrow> Instance list \<Rightarrow> cTsVbuuid list
   \<Rightarrow> (string \<times> string) list round list \<Rightarrow> event list \<times> goerror option run" where
  "AddIndexToStream cfg sid buckets instances requestTimestamps rounds =
     (if length buckets = 0 \<or> length instances = 0 then ([], Done None)
      else addIndexRounds cfg sid buckets instances requestTimestamps rounds)"

text \<open>\<open>DeleteIndexFromStream\<close>.\<close>

fun deleteIndexRounds ::
  "StreamId \<Rightarrow> string list \<Rightarrow> 64 word list
   \<Rightarrow> (string \<times> string) list round list \<Rightarrow> event list \<times> goerror option run" where
  "deleteIndexRounds sid buckets instances [] = ([], Pending)"
| "deleteIndexRounds sid buckets instances (r # rs) =
     (case resolved r of
        Inl e \<Rightarrow> ([GetNodeListForBuckets buckets], Done (Some e))
      | Inr nodes \<Rightarrow>
          (let started = startRound sid buckets (DeleteInstances instances) nodes;
               waited = waitWorkers (remdups (map snd nodes)) [] (donech r)
           in case snd waited of
                Starved \<Rightarrow> (started @ fst waited, Pending)
              | Failed e \<Rightarrow>
                  if code e \<noteq> ERROR_STREAM_PROJECTOR_TIMEOUT
                  then (started @ fst waited, Done (Some (ManagerError e)))
                  else andThen (started @ fst waited)
                         (deleteIndexRounds sid buckets instances rs)
              | AllDone activeTs \<Rightarrow> (started @ fst waited, Done None)))"

definition DeleteIndexFromStream ::
  "StreamId \<Rightarrow> string list \<Rightarrow> 64 word list
   \<Rightarrow> (string \<times> string) list round list \<Rightarrow> event list \<times> goerror option run" where
  "DeleteIndexFromStream sid buckets instances rounds =
     (if length buckets = 0 \<or> length instances = 0 then ([], Done None)
      else deleteIndexRounds sid buckets instances rounds)"

text \<open>
  \<open>RepairEndpointForStream\<close>. The map from a bucket to its partitions is the list of
  its pairs; every round lists its keys anew.
\<close>

fun repairEndpointRounds ::
  "StreamId \<Rightarrow> (string \<times> 16 word list) list \<Rightarrow> string
   \<Rightarrow> (string \<times> string) list round list \<Rightarrow> event list \<times> goerror option run" where
  "repairEndpointRounds sid bucketVbnosMap endpoint [] = ([], Pending)"
| "repairEndpointRounds sid bucketVbnosMap endpoint (r # rs) =
     (let buckets = map fst bucketVbnosMap in
      case resolved r of
        Inl e \<Rightarrow> ([GetNodeListForBuckets buckets], Done (Some e))
      | Inr nodes \<Rightarrow>
          (let started = startRound sid buckets (RepairEndpoint endpoint) nodes;
               waited = waitWorkers (remdups (map snd nodes)) [] (donech r)
           in case snd waited of
                Starved \<Rightarrow> (started @ fst waited, Pending)
              | Failed e \<Rightarrow>
                  if code e \<noteq> ERROR_STREAM_PROJECTOR_TIMEOUT
                  then (started @ fst waited, Done (Some (ManagerError e)))
                  else andThen (started @ fst waited)
                         (repairEndpointRounds sid bucketVbnosMap endpoint rs)
              | AllDone activeTs \<Rightarrow> (started @ fst waited, Done None)))"

definition RepairEndpointForStream ::
  "StreamId \<Rightarrow> (string \<times> 16 word list) list \<Rightarrow> string
   \<Rightarrow> (string \<times> string) list round list \<Rightarrow> event list \<times> goerror option run" where
  "RepairEndpointForStream sid bucketVbnosMap endpoint rounds =
     (if length bucketVbnosMap = 0 then ([], Done None)
      else repairEndpointRounds sid bucketVbnosMap endpoint rounds)"

text \<open>
  \<open>RestartStreamIfNecessary\<close>. The resolver's map gives every node its timestamps. An
  error of the resolver goes through the type assertion \<open>err.(Error)\<close> before its code
  is read.
\<close>

fun restartRounds ::
  "StreamId \<Rightarrow> cTsVbuuid list
   \<Rightarrow> (string \<times> TsVbuuid list) list round list \<Rightarrow> event list \<times> goerror option run" where
  "restartRounds sid restartTimestamps [] = ([], Pending)"
| "restartRounds sid restartTimestamps (r # rs) =
     (case resolved r of
        Inl e \<Rightarrow>
          (case assertError e of
             None \<Rightarrow> ([GetNodeListForTimestamps restartTimestamps], Panic)
           | Some e' \<Rightarrow>
               if code e' = ERROR_STREAM_INCONSISTENT_VBMAP
               then andThen [GetNodeListForTimestamps restartTimestamps]
                      (restartRounds sid restartTimestamps rs)
               else ([GetNodeListForTimestamps restartTimestamps], Done (Some e)))
      | Inr nodes \<Rightarrow>
          (let started = GetNodeListForTimestamps restartTimestamps #
                 map (\<lambda>(srv, timestamps). Spawn (newWorker srv sid) (RestartStream timestamps))
                     nodes;
               waited = waitWorkers (remdups (map fst nodes)) [] (donech r)
           in case snd waited of
                Starved \<Rightarrow> (started @ fst waited, Pending)
              | Failed e \<Rightarrow>
                  if code e \<noteq> ERROR_STREAM_WRONG_VBUCKET \<and>
                     code e \<noteq> ERROR_STREAM_INVALID_TIMESTAMP \<and>
                     code e \<noteq> ERROR_STREAM_FEEDER \<and>
                     code e \<noteq> ERROR_STREAM_STREAM_END \<and>
                     code e \<noteq> ERROR_STREAM_PROJECTOR_TIMEOUT
                  then (started @ fst waited, Done (Some (ManagerError e)))
                  else andThen (started @ fst waited)
                         (restartRounds sid restartTimestamps rs)
              | AllDone activeTs \<Rightarrow>
                  (started @ fst waited @ [MonitorStream sid activeTs], Done None)))"

definition RestartStreamIfNecessary ::
  "StreamId \<Rightarrow> cTsVbuuid list
   \<Rightarrow> (string \<times> TsVbuuid list) list round list \<Rightarrow> event list \<times> goerror option run" where
  "RestartStreamIfNecessary sid restartTimestamps rounds =
     (if length restartTimestamps = 0 then ([], Done None)
      else restartRounds sid restartTimestamps rounds)"

subsection \<open>A concrete configuration and concrete inputs\<close>

definition cfg0 :: config where
  "cfg0 = \<lparr>NUM_VB = 2, MAX_PROJECTOR_RETRY_ELAPSED_TIME = 300, TESTING = False,
     MAINT_TOPIC = ''MAINT_STREAM_TOPIC'', INIT_TOPIC = ''INIT_STREAM_TOPIC'',
     MAINT_STREAM = 1, INIT_STREAM = 3, DEFAULT_POOL_NAME = ''default'',
     ErrorTopicExist = ''feed.topicExist'',
     ErrorInconsistentFeed = ''feed.inconsistentFeed'',
     ErrorNotMyVbucket = ''feed.notMyVbucket'',
     ErrorInvalidVbucketBranch = ''feed.invalidVbucketBranch'',
     ErrorInvalidKVaddrs = ''feed.invalidKVaddrs'',
     ErrorTopicMissing = ''feed.topicMissing'',
     ErrorInvalidBucket = ''feed.invalidBucket'',
     ErrorFeeder = ''feed.feeder'',
     ErrorStreamEnd = ''feed.streamEnd''\<rparr>"

definition ts7 :: TsVbuuid where
  "ts7 = \<lparr>Pool = ''default'', Bucket = ''b'', Vbnos = [7, 8], Seqnos = [150, 20],
     Vbuuids = [11, 12], Snapshots = [(140, 150), (20, 20)]\<rparr>"

definition rb7 :: TsVbuuid where
  "rb7 = \<lparr>Pool = ''default'', Bucket = ''b'', Vbnos = [7], Seqnos = [100],
     Vbuuids = [11], Snapshots = [(100, 100)]\<rparr>"

definition rbBad :: TsVbuuid where
  "rbBad = \<lparr>Pool = ''default'', Bucket = ''b'', Vbnos = [7], Seqnos = [],
     Vbuuids = [], Snapshots = []\<rparr>"

definition tsWrap :: TsVbuuid where
  "tsWrap = \<lparr>Pool = ''default'', Bucket = ''b'', Vbnos = [65543], Seqnos = [150],
     Vbuuids = [11], Snapshots = [(140, 150)]\<rparr>"

definition tsBig :: TsVbuuid where
  "tsBig = \<lparr>Pool = ''default'', Bucket = ''b'', Vbnos = [65536], Seqnos = [150],
     Vbuuids = [11], Snapshots = [(140, 150)]\<rparr>"

subsection \<open>Auxiliary functions of the proofs\<close>

text \<open>
  What the loop of \<open>recomputeRequestTimestamp\<close> computes when nothing panics: position
  \<open>k\<close> of the request gets the entry \<open>pick\<close>, and \<open>appendAll\<close> appends the entries of
  the remaining positions.
\<close>

definition pick :: "TsVbuuid \<Rightarrow> TsVbuuid option \<Rightarrow> nat \<Rightarrow> 64 word \<times> 64 word \<times> 64 word \<times> 64 word" where
  "pick r rbo k = (case rbo of None \<Rightarrow> entry r k
     | Some rb \<Rightarrow> if Vbnos r ! k \<in> set (Vbnos rb) then entry rb (firstIndex (Vbnos rb) (Vbnos r ! k)) else entry r k)"

definition appendEntry :: "TsVbuuid \<Rightarrow> 32 word \<Rightarrow> 64 word \<times> 64 word \<times> 64 word \<times> 64 word \<Rightarrow> TsVbuuid" where
  "appendEntry n v e = Append n (ucast v) (fst e) (fst (snd e)) (fst (snd (snd e))) (snd (snd (snd e)))"

fun appendAll :: "TsVbuuid \<Rightarrow> TsVbuuid option \<Rightarrow> nat \<Rightarrow> 32 word list \<Rightarrow> TsVbuuid \<Rightarrow> TsVbuuid" where
  "appendAll r rbo i [] n = n"
| "appendAll r rbo i (v # vs) n = appendAll r rbo (Suc i) vs (appendEntry n v (pick r rbo i))"

subsection \<open>Auxiliary functions of the proofs about the invariant check\<close>

text \<open>
  Coverage as the check counts it, by the \<open>uint32\<close> value of the partition, and the
  outcome of a scan as a function of the number of occurrences met: the early
  \<open>return false\<close> from two occurrences on, else whether there was one.
\<close>

definition cov32 :: "TsVbuuid list \<Rightarrow> string \<Rightarrow> 32 word \<Rightarrow> nat" where
  "cov32 activeTs bucket vb =
     sum_list (map (\<lambda>ts. if Bucket ts = bucket then length (filter (\<lambda>v. v = vb) (Vbnos ts)) else 0) activeTs)"

definition verdict :: "nat \<Rightarrow> bool option" where
  "verdict t = (if 2 \<le> t then None else Some (t = 1))"

subsection \<open>Auxiliary functions and predicates for the orchestrator and the workers\<close>

text \<open>
  The workers that are still on the map of the orchestrator when the workers \<open>received\<close>
  have been taken off it: the ones that get the kill signal.
\<close>

definition unreceived :: "string list \<Rightarrow> adminWorker list \<Rightarrow> string list" where
  "unreceived workers received = filter (\<lambda>s. s \<notin> server ` set received) workers"

text \<open>
  The words of the specification: \<open>monitorStream\<close> is called only where the invariant
  check returned true. \<open>monitorGuarded validated evs\<close> holds when every \<open>MonitorStream\<close>
  event of \<open>evs\<close> directly follows an event \<open>ValidateActiveVb True\<close>; \<open>validated\<close> tells
  whether the event before \<open>evs\<close> was one. An event is \<open>quiet\<close> when it is neither.
\<close>

fun monitorGuarded :: "bool \<Rightarrow> event list \<Rightarrow> bool" where
  "monitorGuarded validated [] = True"
| "monitorGuarded validated (MonitorStream sid ts # evs) = (validated \<and> monitorGuarded False evs)"
| "monitorGuarded validated (ev # evs) = monitorGuarded (ev = ValidateActiveVb True) evs"

fun quiet :: "event \<Rightarrow> bool" where
  "quiet (MonitorStream sid ts) = False"
| "quiet (ValidateActiveVb ok) = False"
| "quiet ev = True"

text \<open>
  Two nodes \<open>A\<close> and \<open>B\<close>; rounds in which the worker of one node reports an error before
  the other worker has reported, and a round of one node whose worker reports both
  partitions of bucket \<open>b\<close> active.
\<close>

definition fatalError :: Error where
  "fatalError = NewError ERROR_STREAM_REQUEST_ERROR ''feed.inconsistentFeed'' []"

definition nodesAB :: "(string \<times> string) list" where
  "nodesAB = [(''A'', ''A''), (''B'', ''B'')]"

definition workerA_fatal :: adminWorker where
  "workerA_fatal = (newWorker ''A'' 1)\<lparr>err := Some fatalError\<rparr>"

definition roundFatal :: "(string \<times> string) list round" where
  "roundFatal = \<lparr>resolved = Inr nodesAB, donech = [workerA_fatal]\<rparr>"

text \<open>
  A round whose node map has two keys for the one server \<open>A\<close>, and that delivers one
  worker of \<open>A\<close>, with an error.
\<close>

definition twoKeys :: "(string \<times> string) list round" where
  "twoKeys = \<lparr>resolved = Inr [(''k1'', ''A''), (''k2'', ''A'')],
     donech = [(newWorker ''A'' 1)\<lparr>err := Some fatalError\<rparr>]\<rparr>"

text \<open>
  A restart timestamp of the caller for bucket \<open>b\<close>, and a round in which the resolver
  fails with an error that is not the package's \<open>Error\<close>: the one that
  \<open>Pool.GetBucket\<close> makes with \<open>errors.New\<close> for an unknown bucket, which
  \<open>GetNodeListForTimestamps\<close> passes on as it is.
\<close>

definition cts0 :: cTsVbuuid where
  "cts0 = \<lparr>cBucket = ''b'', cSeqnos = [5, 0], cVbuuids = [11, 12], cSnapshots = [(5, 5), (0, 0)]\<rparr>"

definition roundNoBucket :: "(string \<times> TsVbuuid list) list round" where
  "roundNoBucket = \<lparr>resolved = Inl (ForeignError ''No bucket named b''), donech = []\<rparr>"

definition tsFull :: TsVbuuid where
  "tsFull = \<lparr>Pool = ''default'', Bucket = ''b'', Vbnos = [0, 1], Seqnos = [0, 0],
     Vbuuids = [11, 12], Snapshots = [(0, 0), (0, 0)]\<rparr>"

definition workerA_ok :: adminWorker where
  "workerA_ok = (newWorker ''A'' 1)\<lparr>activeTimestamps := [tsFull]\<rparr>"

definition roundOk :: "(string \<times> string) list round" where
  "roundOk = \<lparr>resolved = Inr [(''A'', ''A'')], donech = [workerA_ok]\<rparr>"



text \<open>
  Two kinds of passes of the retry loop of \<open>deleteInstances\<close> and \<open>repairEndpoint\<close>: the
  call is made and fails with an error whose text contains the text of
  \<open>ErrorTopicMissing\<close>; the call is made, fails with another error and the elapsed time
  is below the ceiling, so that the loop goes on.
\<close>

definition topicMissing :: "config \<Rightarrow> attempt \<Rightarrow> bool" where
  "topicMissing cfg a =
     (\<not> killed a \<and>
      (case failure a of None \<Rightarrow> False
       | Some errStr \<Rightarrow> Contains errStr (ErrorTopicMissing cfg)))"

definition retried :: "config \<Rightarrow> int \<Rightarrow> attempt \<Rightarrow> bool" where
  "retried cfg startTime a =
     (\<not> killed a \<and>
      (case failure a of None \<Rightarrow> False
       | Some errStr \<Rightarrow> \<not> Contains errStr (ErrorTopicMissing cfg)) \<and>
      clock a - startTime < MAX_PROJECTOR_RETRY_ELAPSED_TIME cfg)"

text \<open>
  Concrete passes: a refused connection, then a projector that no longer has the topic;
  and a round whose only worker reports no error.
\<close>

definition emptyResponse :: TopicResponse where
  "emptyResponse = \<lparr>GetActiveTimestamps = [], GetRollbackTimestamps = []\<rparr>"

definition attemptBusy :: attempt where
  "attemptBusy = \<lparr>killed = False, response = emptyResponse,
     failure = Some ''connection refused'', clock = 10\<rparr>"

definition attemptMissing :: attempt where
  "attemptMissing = \<lparr>killed = False, response = emptyResponse,
     failure = Some ''projector: feed.topicMissing'', clock = 11\<rparr>"

definition roundGone :: "(string \<times> string) list round" where
  "roundGone = \<lparr>resolved = Inr [(''A'', ''A'')], donech = [newWorker ''A'' 1]\<rparr>"

text \<open>
  The error code that \<open>shouldRetryAddInstances\<close> gives to a failure that contains one of
  the three texts of the node-retry kinds, in the order of its tests.
\<close>

definition nodeRetryCode :: "config \<Rightarrow> string \<Rightarrow> ErrorCode" where
  "nodeRetryCode cfg errStr =
     (if Contains errStr (ErrorNotMyVbucket cfg) then ERROR_STREAM_WRONG_VBUCKET
      else if Contains errStr (ErrorInvalidVbucketBranch cfg) then ERROR_STREAM_INVALID_TIMESTAMP
      else ERROR_STREAM_INVALID_KVADDRS)"

text \<open>
  Concrete passes of the retry loop of \<open>addInstances\<close>: the projector answers with a
  rollback timestamp for partition 7 of bucket \<open>b\<close> and an error, of a node-retry kind
  or of no kind that the worker knows; then it accepts the request.
\<close>

definition workerA_wrong :: adminWorker where
  "workerA_wrong = (newWorker ''A'' 1)\<lparr>err := Some (NewError ERROR_STREAM_WRONG_VBUCKET ''feed.notMyVbucket'' [])\<rparr>"

definition attemptNotMine :: attempt where
  "attemptNotMine = \<lparr>killed = False,
     response = \<lparr>GetActiveTimestamps = [], GetRollbackTimestamps = [rb7]\<rparr>,
     failure = Some ''feed.notMyVbucket'', clock = 1\<rparr>"

definition attemptRefused :: attempt where
  "attemptRefused = \<lparr>killed = False,
     response = \<lparr>GetActiveTimestamps = [], GetRollbackTimestamps = [rb7]\<rparr>,
     failure = Some ''connection refused'', clock = 1\<rparr>"

definition roundWrong :: "(string \<times> string) list round" where
  "roundWrong = \<lparr>resolved = Inr nodesAB, donech = [workerA_wrong]\<rparr>"

definition ts7rolled :: TsVbuuid where
  "ts7rolled = \<lparr>Pool = ''default'', Bucket = ''b'', Vbnos = [7, 8], Seqnos = [100, 20],
     Vbuuids = [11, 12], Snapshots = [(100, 100), (20, 20)]\<rparr>"

definition attemptBranch :: attempt where
  "attemptBranch = \<lparr>killed = False,
     response = \<lparr>GetActiveTimestamps = [], GetRollbackTimestamps = [rb7]\<rparr>,
     failure = Some ''feed.invalidVbucketBranch'', clock = 1\<rparr>"

definition attemptOk :: attempt where
  "attemptOk = \<lparr>killed = False,
     response = \<lparr>GetActiveTimestamps = [ts7rolled], GetRollbackTimestamps = []\<rparr>,
     failure = None, clock = 2\<rparr>"

definition workerB_branch :: adminWorker where
  "workerB_branch = (newWorker ''B'' 1)\<lparr>err :=
     Some (NewError ERROR_STREAM_INVALID_TIMESTAMP ''feed.invalidVbucketBranch'' [])\<rparr>"

definition roundBranch :: "(string \<times> string) list round" where
  "roundBranch = \<lparr>resolved = Inr nodesAB, donech = [workerB_branch]\<rparr>"

definition attemptExists :: attempt where
  "attemptExists = \<lparr>killed = False,
     response = \<lparr>GetActiveTimestamps = [], GetRollbackTimestamps = [rb7]\<rparr>,
     failure = Some ''feed.topicExist'', clock = 1\<rparr>"

definition attemptLate :: attempt where
  "attemptLate = \<lparr>killed = False,
     response = \<lparr>GetActiveTimestamps = [], GetRollbackTimestamps = [rb7]\<rparr>,
     failure = Some ''connection refused'', clock = 400\<rparr>"

section \<open>Properties of the timestamp arithmetic\<close>

lemma findTimestampForBucket_find: "findTimestampForBucket rbs b = find (\<lambda>t. Bucket t = b) rbs"
  by (induction rbs) auto

lemma findOffsetFrom_eq:
  "findOffsetFrom vs v i = (if v \<in> set vs then i + int (firstIndex vs v) else - 1)"
  by (induction vs arbitrary: i) (auto simp: firstIndex_def)

lemma firstIndex_less: "x \<in> set xs \<Longrightarrow> firstIndex xs x < length xs"
  unfolding firstIndex_def by (induction xs) auto

lemma index_Some: "k < length xs \<Longrightarrow> index xs (int k) = Some (xs ! k)"
  by (simp add: index_def)

lemma appendFrom_wf:
  "wf_ts src \<Longrightarrow> k < length (Vbnos src) \<Longrightarrow>
   appendFrom n v src (int k) = Some (Append n (ucast v) (Seqnos src ! k) (Vbuuids src ! k) (fst (Snapshots src ! k)) (snd (Snapshots src ! k)))"
  by (simp add: appendFrom_def wf_ts_def index_Some)

lemma step_eq:
  assumes "wf_ts r" "\<And>rb. rbo = Some rb \<Longrightarrow> wf_ts rb" "i < length (Vbnos r)" "Vbnos r ! i = v"
  shows "(let offset = findTimestampOffsetForVb rbo v in
          if offset \<noteq> - 1 then (case rbo of None \<Rightarrow> None | Some rb \<Rightarrow> appendFrom n v rb offset)
          else appendFrom n v r (int i)) = Some (appendEntry n v (pick r rbo i))"
proof (cases rbo)
  case None
  then show ?thesis using assms
    by (simp add: findTimestampOffsetForVb_def appendFrom_wf pick_def appendEntry_def entry_def)
next
  case (Some rb)
  then have wf: "wf_ts rb" using assms by simp
  show ?thesis
  proof (cases "v \<in> set (Vbnos rb)")
    case True
    then have "firstIndex (Vbnos rb) v < length (Vbnos rb)" by (rule firstIndex_less)
    then show ?thesis using Some True wf assms
      by (simp add: findTimestampOffsetForVb_def findOffsetFrom_eq appendFrom_wf pick_def appendEntry_def entry_def)
  next
    case False
    then show ?thesis using Some assms
      by (simp add: findTimestampOffsetForVb_def findOffsetFrom_eq appendFrom_wf pick_def appendEntry_def entry_def)
  qed
qed

lemma recomputeLoop_eq:
  assumes "wf_ts r" "\<And>rb. rbo = Some rb \<Longrightarrow> wf_ts rb"
  shows "drop i (Vbnos r) = vs \<Longrightarrow> recomputeLoop r rbo i vs n = Some (appendAll r rbo i vs n)"
proof (induction vs arbitrary: i n)
  case Nil
  then show ?case by simp
next
  case (Cons v vs)
  from Cons.prems have i: "i < length (Vbnos r)" by (cases "i < length (Vbnos r)") auto
  from Cons.prems have v: "Vbnos r ! i = v" using i
    by (metis nth_via_drop)
  from Cons.prems have d: "drop (Suc i) (Vbnos r) = vs"
    by (metis drop_Suc drop_tl list.sel(3) tl_drop)
  have "recomputeLoop r rbo i (v # vs) n = recomputeLoop r rbo (Suc i) vs (appendEntry n v (pick r rbo i))"
    using step_eq[OF assms(1) assms(2) i v, where n = n] by (simp add: Let_def)
  then show ?case using Cons.IH[OF d] by simp
qed

lemma appendAll_fields:
  "Pool (appendAll r rbo i vs n) = Pool n \<and> Bucket (appendAll r rbo i vs n) = Bucket n
   \<and> Vbnos (appendAll r rbo i vs n) = Vbnos n @ map (\<lambda>v. ucast (ucast v :: 16 word)) vs
   \<and> Seqnos (appendAll r rbo i vs n) = Seqnos n @ map (\<lambda>k. fst (pick r rbo k)) [i..<i + length vs]
   \<and> Vbuuids (appendAll r rbo i vs n) = Vbuuids n @ map (\<lambda>k. fst (snd (pick r rbo k))) [i..<i + length vs]
   \<and> Snapshots (appendAll r rbo i vs n) = Snapshots n @ map (\<lambda>k. snd (snd (pick r rbo k))) [i..<i + length vs]"
proof (induction vs arbitrary: i n)
  case Nil
  then show ?case by simp
next
  case (Cons v vs)
  have u: "[i..<i + length (v # vs)] = i # [Suc i..<Suc i + length vs]"
    using upt_conv_Cons[of i "i + length (v # vs)"] by simp
  show ?case unfolding u using Cons.IH[of "Suc i" "appendEntry n v (pick r rbo i)"]
    by (simp add: appendEntry_def Append_def)
qed

lemma ucast_roundtrip: "(v :: 32 word) \<le> 0xFFFF \<Longrightarrow> ucast (ucast v :: 16 word) = v"
proof -
  assume a: "v \<le> 0xFFFF"
  have "ucast (ucast v :: 16 word) = take_bit 16 v"
    by (rule bit_word_eqI) (auto simp: bit_simps)
  moreover have "v < 2 ^ 16" using a by (simp add: word_le_nat_alt word_less_nat_alt)
  ultimately show ?thesis by (simp add: less_mask_eq take_bit_eq_mask)
qed

lemma ucast_roundtrip_fail: "ucast (ucast (65536 :: 32 word) :: 16 word) = (0 :: 32 word)"
  by simp



lemma NewTsVbuuid_wf: "wf_ts (NewTsVbuuid p b n)"
  by (simp add: wf_ts_def NewTsVbuuid_def)

lemma Append_wf: "wf_ts ts \<Longrightarrow> wf_ts (Append ts v s u a b)"
  by (simp add: wf_ts_def Append_def)

lemma recompute_eq_first:
  assumes "wf_ts r" "\<And>rb. findTimestampForBucket rbs (Bucket r) = Some rb \<Longrightarrow> wf_ts rb"
  shows "recomputeRequestTimestamp cfg r rbs =
     Some (appendAll r (findTimestampForBucket rbs (Bucket r)) 0 (Vbnos r)
        (NewTsVbuuid (DEFAULT_POOL_NAME cfg) (Bucket r) (length (Vbnos r))))"
  unfolding recomputeRequestTimestamp_def Let_def
  using assms(2) by (intro recomputeLoop_eq assms(1)) auto

lemma recompute_eq:
  assumes "wf_ts r" "\<forall>t\<in>set rbs. wf_ts t"
  shows "recomputeRequestTimestamp cfg r rbs =
     Some (appendAll r (findTimestampForBucket rbs (Bucket r)) 0 (Vbnos r)
        (NewTsVbuuid (DEFAULT_POOL_NAME cfg) (Bucket r) (length (Vbnos r))))"
proof -
  have "\<And>rb. findTimestampForBucket rbs (Bucket r) = Some rb \<Longrightarrow> wf_ts rb"
    using assms(2) by (auto simp: findTimestampForBucket_find find_Some_iff)
  with assms(1) show ?thesis by (rule recompute_eq_first)
qed

lemma pick_rollbackEntry:
  "pick r (findTimestampForBucket rbs (Bucket r)) k =
     (case rollbackEntry rbs (Bucket r) (Vbnos r ! k) of Some e \<Rightarrow> e | None \<Rightarrow> entry r k)"
  by (simp add: pick_def rollbackEntry_def findTimestampForBucket_find split: option.splits)

text \<open>
  Claim C2 as stated fails. With a rollback timestamp for the request's bucket that names
  partition 7 and holds no sequence number for it, the function does not return: it
  panics at \<open>rollbackTs.Seqnos[offset]\<close>. And the entry of partition 65543 of a request
  comes back under the partition number 7, which is \<open>uint16(65543)\<close>.
\<close>

theorem recomputeRequestTimestamp_rollback_counterexample:
  "recomputeRequestTimestamp cfg0 ts7 [rbBad] = None \<and>
   Vbnos tsWrap = [65543] \<and>
   map_option Vbnos (recomputeRequestTimestamp cfg0 tsWrap []) = Some [7]"
  by (simp add: recomputeRequestTimestamp_def ts7_def rbBad_def tsWrap_def cfg0_def
      NewTsVbuuid_def findTimestampOffsetForVb_def appendFrom_def index_def Append_def)

text \<open>
  Claim C2 (rollback reconciliation), as amended. For a well-formed request timestamp,
  and rollback timestamps of which the first one for the request's bucket, if there is
  one, is well formed, \<open>recomputeRequestTimestamp\<close> returns a well-formed timestamp for
  the bucket of the request with one position per position of the request. The partition
  number at a position is \<open>uint16(vbno)\<close> for the partition number \<open>vbno\<close> of the
  request at that position, which is \<open>vbno\<close> itself when the partition numbers of the
  request are at most 65535. The entry (sequence number, vbuuid, snapshot start and end) at
  the position is the rollback entry for \<open>vbno\<close>, the entry at the first position of
  \<open>vbno\<close> in the first rollback timestamp of the request's bucket, when that timestamp
  contains \<open>vbno\<close>, and the request's own entry at the position otherwise.
\<close>

theorem recomputeRequestTimestamp_rollback:
  assumes "wf_ts requestTs"
    and "\<forall>rb. findTimestampForBucket rollbackTimestamps (Bucket requestTs) = Some rb
              \<longrightarrow> wf_ts rb"
  shows "\<exists>newTs. recomputeRequestTimestamp cfg requestTs rollbackTimestamps = Some newTs
           \<and> wf_ts newTs \<and> Bucket newTs = Bucket requestTs
           \<and> Vbnos newTs = map (\<lambda>vbno. ucast (ucast vbno :: 16 word)) (Vbnos requestTs)
           \<and> ((\<forall>vbno\<in>set (Vbnos requestTs). vbno \<le> 0xFFFF) \<longrightarrow>
                Vbnos newTs = Vbnos requestTs)
           \<and> (\<forall>i<length (Vbnos requestTs).
                 entry newTs i =
                   (case rollbackEntry rollbackTimestamps (Bucket requestTs) (Vbnos requestTs ! i) of
                      Some e \<Rightarrow> e
                    | None \<Rightarrow> entry requestTs i))"
proof -
  let ?rbo = "findTimestampForBucket rollbackTimestamps (Bucket requestTs)"
  let ?init = "NewTsVbuuid (DEFAULT_POOL_NAME cfg) (Bucket requestTs) (length (Vbnos requestTs))"
  let ?new = "appendAll requestTs ?rbo 0 (Vbnos requestTs) ?init"
  have eq: "recomputeRequestTimestamp cfg requestTs rollbackTimestamps = Some ?new"
    using assms by (intro recompute_eq_first) auto
  have f: "Vbnos ?new = map (\<lambda>v. ucast (ucast v :: 16 word)) (Vbnos requestTs)"
     "Bucket ?new = Bucket requestTs"
     "Seqnos ?new = map (\<lambda>k. fst (pick requestTs ?rbo k)) [0..<length (Vbnos requestTs)]"
     "Vbuuids ?new = map (\<lambda>k. fst (snd (pick requestTs ?rbo k))) [0..<length (Vbnos requestTs)]"
     "Snapshots ?new = map (\<lambda>k. snd (snd (pick requestTs ?rbo k))) [0..<length (Vbnos requestTs)]"
    using appendAll_fields[where r = requestTs and rbo = ?rbo and i = 0 and vs = "Vbnos requestTs" and n = ?init]
    by (simp_all add: NewTsVbuuid_def)
  have wf: "wf_ts ?new" by (simp add: wf_ts_def f)
  have same: "(\<forall>vbno\<in>set (Vbnos requestTs). vbno \<le> 0xFFFF) \<longrightarrow> Vbnos ?new = Vbnos requestTs"
  proof
    assume "\<forall>vbno\<in>set (Vbnos requestTs). vbno \<le> 0xFFFF"
    then have "map (\<lambda>v. ucast (ucast v :: 16 word)) (Vbnos requestTs) = Vbnos requestTs"
      by (simp add: map_idI ucast_roundtrip)
    then show "Vbnos ?new = Vbnos requestTs" using f(1) by simp
  qed
  have ent: "\<forall>i<length (Vbnos requestTs). entry ?new i = pick requestTs ?rbo i"
    by (simp add: entry_def f)
  show ?thesis
    apply (rule exI[of _ ?new])
    using eq wf f(1,2) same ent by (simp add: pick_rollbackEntry)
qed

theorem recomputeRequestTimestamp_rollback_witness:
  "wf_ts ts7 \<and> wf_ts rb7 \<and>
   map_option (\<lambda>t. (Vbnos t, entry t 0, entry t 1)) (recomputeRequestTimestamp cfg0 ts7 [rb7]) =
     Some ([7, 8], (100, 11, 100, 100), (20, 12, 20, 20))"
proof -
  have a: "wf_ts ts7" by (simp add: wf_ts_def ts7_def)
  have b: "wf_ts rb7" by (simp add: wf_ts_def rb7_def)
  have c: "\<forall>rb. findTimestampForBucket [rb7] (Bucket ts7) = Some rb \<longrightarrow> wf_ts rb"
    using b by (simp add: ts7_def rb7_def)
  have d: "\<forall>vbno\<in>set (Vbnos ts7). vbno \<le> 0xFFFF" by (simp add: ts7_def)
  from recomputeRequestTimestamp_rollback[OF a c, of cfg0]
  obtain newTs where n: "recomputeRequestTimestamp cfg0 ts7 [rb7] = Some newTs"
    and v: "(\<forall>vbno\<in>set (Vbnos ts7). vbno \<le> 0xFFFF) \<longrightarrow> Vbnos newTs = Vbnos ts7"
    and e: "\<forall>i<length (Vbnos ts7). entry newTs i =
                   (case rollbackEntry [rb7] (Bucket ts7) (Vbnos ts7 ! i) of
                      Some e \<Rightarrow> e | None \<Rightarrow> entry ts7 i)" by blast
  have l: "length (Vbnos ts7) = 2" by (simp add: ts7_def)
  have "Vbnos newTs = [7, 8]" using v d by (simp add: ts7_def)
  moreover have "entry newTs 0 = (100, 11, 100, 100)"
    using e l by (simp add: rollbackEntry_def ts7_def rb7_def entry_def firstIndex_def)
  moreover have "entry newTs 1 = (20, 12, 20, 20)"
    using e l by (simp add: rollbackEntry_def ts7_def rb7_def entry_def firstIndex_def)
  ultimately show ?thesis using a b n by simp
qed

text \<open>
  Claim C9 (structure preservation), as amended. For a well-formed request timestamp
  whose partition numbers all fit in 16 bits, and well-formed rollback timestamps (the
  empty list included), \<open>recomputeRequestTimestamp\<close> returns a timestamp, never nil, for
  the same bucket with exactly the partition numbers of the request, in the same order.
  The bound is needed: the function converts every partition number with \<open>uint16\<close>
  before it appends it, so the partition number 65536 comes back as 0.
\<close>

theorem recomputeRequestTimestamp_structure:
  assumes "wf_ts requestTs" and "\<forall>t\<in>set rollbackTimestamps. wf_ts t"
    and "\<forall>v\<in>set (Vbnos requestTs). v \<le> 0xFFFF"
  shows "\<exists>newTs. recomputeRequestTimestamp cfg requestTs rollbackTimestamps = Some newTs
           \<and> wf_ts newTs \<and> Bucket newTs = Bucket requestTs \<and> Vbnos newTs = Vbnos requestTs"
proof -
  let ?rbo = "findTimestampForBucket rollbackTimestamps (Bucket requestTs)"
  let ?init = "NewTsVbuuid (DEFAULT_POOL_NAME cfg) (Bucket requestTs) (length (Vbnos requestTs))"
  let ?new = "appendAll requestTs ?rbo 0 (Vbnos requestTs) ?init"
  have eq: "recomputeRequestTimestamp cfg requestTs rollbackTimestamps = Some ?new"
    using assms(1,2) by (rule recompute_eq)
  have f: "Bucket ?new = Bucket requestTs"
     "Vbnos ?new = map (\<lambda>v. ucast (ucast v :: 16 word)) (Vbnos requestTs)"
     "length (Seqnos ?new) = length (Vbnos requestTs)"
     "length (Vbuuids ?new) = length (Vbnos requestTs)"
     "length (Snapshots ?new) = length (Vbnos requestTs)"
    using appendAll_fields[where r = requestTs and rbo = ?rbo and i = 0
        and vs = "Vbnos requestTs" and n = ?init]
    by (simp_all add: NewTsVbuuid_def)
  have "map (\<lambda>v. ucast (ucast v :: 16 word)) (Vbnos requestTs) = Vbnos requestTs"
    using assms(3) by (simp add: map_idI ucast_roundtrip)
  then have v: "Vbnos ?new = Vbnos requestTs" using f(2) by simp
  have wf: "wf_ts ?new" by (simp add: wf_ts_def f)
  show ?thesis using eq wf f(1) v by simp
qed

text \<open>
  Claim C9 as stated fails. The request timestamp has the single partition number 65536,
  with its entry, and there is no rollback timestamp: the timestamp that comes back has
  the partition number 0.
\<close>

theorem recomputeRequestTimestamp_structure_counterexample:
  "Vbnos tsBig = [65536] \<and>
   map_option Vbnos (recomputeRequestTimestamp cfg0 tsBig []) = Some [0] \<and>
   map_option Vbnos (recomputeRequestTimestamp cfg0 tsBig []) \<noteq> Some (Vbnos tsBig)"
  by (simp add: recomputeRequestTimestamp_def tsBig_def cfg0_def NewTsVbuuid_def
      findTimestampOffsetForVb_def appendFrom_def index_def Append_def)

theorem recomputeRequestTimestamp_structure_witness:
  "wf_ts ts7 \<and> wf_ts rb7 \<and> list_all (\<lambda>v. v \<le> 0xFFFF) (Vbnos ts7) \<and>
   map_option (\<lambda>t. (Bucket t, Vbnos t)) (recomputeRequestTimestamp cfg0 ts7 [rb7]) =
     Some (''b'', [7, 8])"
proof -
  have a: "wf_ts ts7" by (simp add: wf_ts_def ts7_def)
  have b: "wf_ts rb7" by (simp add: wf_ts_def rb7_def)
  have c: "\<forall>t\<in>set [rb7]. wf_ts t" using b by simp
  have d: "\<forall>v\<in>set (Vbnos ts7). v \<le> 0xFFFF" by (simp add: ts7_def)
  from recomputeRequestTimestamp_structure[OF a c d, of cfg0]
  obtain newTs where n: "recomputeRequestTimestamp cfg0 ts7 [rb7] = Some newTs"
    and e: "Bucket newTs = Bucket ts7" "Vbnos newTs = Vbnos ts7" by blast
  have "Bucket ts7 = ''b''" "Vbnos ts7 = [7, 8]" by (simp_all add: ts7_def)
  then show ?thesis using a b d n e by (simp add: list_all_iff)
qed

section \<open>Properties of the invariant check\<close>

lemma scanVbnos_eq:
  "scanVbnos vb vs found = verdict ((if found then 1 else 0) + length (filter (\<lambda>v. v = vb) vs))"
  by (induction vs arbitrary: found) (auto simp: verdict_def)

lemma small_total: "\<not> 2 \<le> (t::nat) \<Longrightarrow> (if t = 1 then 1 else 0) = t"
  by auto

lemma scanTimestamps_eq:
  "scanTimestamps bucket vb ats found = verdict ((if found then 1 else 0) + cov32 ats bucket vb)"
proof (induction ats arbitrary: found)
  case Nil
  then show ?case by (simp add: cov32_def verdict_def)
next
  case (Cons ts ats)
  let ?c = "length (filter (\<lambda>v. v = vb) (Vbnos ts))"
  let ?f = "(if found then 1 else 0) :: nat"
  show ?case
  proof (cases "Bucket ts = bucket")
    case False
    then show ?thesis by (simp add: Cons.IH cov32_def)
  next
    case True
    have c: "cov32 (ts # ats) bucket vb = ?c + cov32 ats bucket vb"
      using True by (simp add: cov32_def)
    show ?thesis
    proof (cases "2 \<le> ?f + ?c")
      case True
      then show ?thesis using \<open>Bucket ts = bucket\<close> c
        by (simp add: scanVbnos_eq verdict_def)
    next
      case False
      then have s: "scanVbnos vb (Vbnos ts) found = Some (?f + ?c = 1)"
        by (simp add: scanVbnos_eq verdict_def)
      have "(if ?f + ?c = 1 then 1 else 0) = ?f + ?c" using False by (rule small_total)
      then have "verdict ((if ?f + ?c = 1 then 1 else 0) + cov32 ats bucket vb)
          = verdict (?f + cov32 (ts # ats) bucket vb)"
        using c by (simp add: add.assoc)
      then show ?thesis using \<open>Bucket ts = bucket\<close> s by (simp add: Cons.IH)
    qed
  qed
qed

lemma checkVb_eq: "checkVb bucket vb ats \<longleftrightarrow> cov32 ats bucket (of_nat vb) = 1"
  by (simp add: checkVb_def scanTimestamps_eq verdict_def)

lemma unat_eq_of_nat32: "vb < 2 ^ 32 \<Longrightarrow> (unat (v :: 32 word) = vb) \<longleftrightarrow> (v = of_nat vb)"
proof
  assume "unat v = vb"
  then show "v = of_nat vb" by auto
next
  assume a: "vb < 2 ^ 32" and "v = of_nat vb"
  then show "unat v = vb" by (simp add: unat_of_nat)
qed

lemma coverage_cov32: "vb < 2 ^ 32 \<Longrightarrow> coverage ats bucket vb = cov32 ats bucket (of_nat vb)"
proof -
  assume "vb < 2 ^ 32"
  then have h: "(\<lambda>v :: 32 word. unat v = vb) = (\<lambda>v. v = of_nat vb)"
    by (simp add: fun_eq_iff unat_eq_of_nat32)
  show ?thesis unfolding coverage_def cov32_def h by (rule refl)
qed

lemma validateActiveVb_iff:
  assumes "NUM_VB cfg \<le> 2 ^ 32"
  shows "validateActiveVb cfg buckets ats \<longleftrightarrow>
     (\<forall>bucket\<in>set buckets. \<forall>vb<NUM_VB cfg. coverage ats bucket vb = 1)"
proof -
  have "\<And>vb. vb < NUM_VB cfg \<Longrightarrow> vb < 2 ^ 32" using assms by simp
  then show ?thesis
    by (auto simp: validateActiveVb_def list_all_iff checkVb_eq coverage_cov32)
qed

section \<open>Properties of the orchestrator\<close>

lemma removeAll_filter: "removeAll x xs = filter (\<lambda>s. s \<noteq> x) xs"
  by (induction xs) auto

lemma unreceived_Nil: "unreceived workers [] = workers"
  by (simp add: unreceived_def)

lemma unreceived_Cons:
  "unreceived workers (p # pre) = unreceived (removeAll (server p) workers) pre"
  by (induction workers) (auto simp: unreceived_def)

lemma unreceived_snoc:
  "unreceived workers (pre @ [w]) = removeAll (server w) (unreceived workers pre)"
  by (induction workers) (auto simp: unreceived_def)

lemma unreceived_empty_iff: "unreceived workers pre = [] \<longleftrightarrow> set workers \<subseteq> server ` set pre"
  by (auto simp: unreceived_def filter_empty_conv)

lemma waitWorkers_error:
  assumes "\<forall>p\<in>set pre. err p = None" "unreceived workers pre \<noteq> []" "err w = Some e"
  shows "waitWorkers workers ats (pre @ w # post) =
     (map Receive (pre @ [w]) @ map Kill (unreceived workers (pre @ [w])), Failed e)"
  using assms
proof (induction pre arbitrary: workers ats)
  case Nil
  then obtain s ss where "workers = s # ss" by (cases workers) (auto simp: unreceived_Nil)
  then show ?case using Nil by (simp add: unreceived_def removeAll_filter)
next
  case (Cons p pre)
  then obtain s ss where w: "workers = s # ss" by (cases workers) (auto simp: unreceived_def)
  have p: "err p = None" using Cons.prems by simp
  have u: "unreceived (removeAll (server p) workers) pre \<noteq> []"
    using Cons.prems(2) by (simp add: unreceived_Cons)
  have "waitWorkers workers ats ((p # pre) @ w # post) =
      andThen [Receive p] (waitWorkers (removeAll (server p) workers) (ats @ activeTimestamps p) (pre @ w # post))"
    using w p by simp
  also have "\<dots> = andThen [Receive p] (map Receive (pre @ [w]) @ map Kill (unreceived (removeAll (server p) workers) (pre @ [w])), Failed e)"
    using Cons.IH[OF _ u Cons.prems(3)] Cons.prems(1) by simp
  finally show ?case by (simp add: andThen_def unreceived_Cons)
qed

lemma waitWorkers_AllDone:
  "waitWorkers workers ats arrivals = (evs, AllDone ats') \<Longrightarrow>
   \<exists>k\<le>length arrivals. evs = map Receive (take k arrivals)
      \<and> ats' = ats @ concat (map activeTimestamps (take k arrivals))
      \<and> (\<forall>p\<in>set (take k arrivals). err p = None)
      \<and> set workers \<subseteq> server ` set (take k arrivals)"
proof (induction workers ats arrivals arbitrary: evs rule: waitWorkers.induct)
  case (1 activeTs arrivals)
  then show ?case by (intro exI[of _ 0]) simp
next
  case (2 s ss activeTs)
  then show ?case by simp
next
  case (3 s ss activeTs worker rest)
  show ?case
  proof (cases "err worker")
    case (Some e)
    then show ?thesis using 3 by simp
  next
    case None
    obtain evs' where r: "waitWorkers (removeAll (server worker) (s # ss)) (activeTs @ activeTimestamps worker) rest = (evs', AllDone ats')"
      and e: "evs = Receive worker # evs'"
      using "3.prems" None by (cases "waitWorkers (removeAll (server worker) (s # ss)) (activeTs @ activeTimestamps worker) rest") (auto simp: andThen_def)
    from "3.IH"[OF None r] obtain k where k: "k \<le> length rest" "evs' = map Receive (take k rest)"
      "ats' = (activeTs @ activeTimestamps worker) @ concat (map activeTimestamps (take k rest))"
      "\<forall>p\<in>set (take k rest). err p = None"
      "set (removeAll (server worker) (s # ss)) \<subseteq> server ` set (take k rest)" by blast
    have "set (s # ss) - {server worker} \<subseteq> server ` set (take k rest)"
      using k(5) by (simp only: set_removeAll)
    then have "set (s # ss) \<subseteq> server ` set (take (Suc k) (worker # rest))"
      by auto
    then show ?thesis using k e None
      by (intro exI[of _ "Suc k"]) simp
  qed
qed

lemma waitWorkers_no_error:
  "\<forall>w\<in>set arrivals. err w = None \<Longrightarrow> set workers \<subseteq> server ` set arrivals \<Longrightarrow>
   \<exists>evs ats'. waitWorkers workers ats arrivals = (evs, AllDone ats')"
proof (induction workers ats arrivals rule: waitWorkers.induct)
  case (1 activeTs arrivals)
  then show ?case by simp
next
  case (2 s ss activeTs)
  then show ?case by simp
next
  case (3 s ss activeTs worker rest)
  have n: "err worker = None" using "3.prems" by simp
  have "set (s # ss) - {server worker} \<subseteq> server ` set rest"
    using "3.prems"(2) by auto
  then have "set (removeAll (server worker) (s # ss)) \<subseteq> server ` set rest"
    by (simp only: set_removeAll)
  with "3.IH"[OF n] "3.prems"(1) obtain evs ats' where
    "waitWorkers (removeAll (server worker) (s # ss)) (activeTs @ activeTimestamps worker) rest = (evs, AllDone ats')"
    by auto
  then show ?case using n by (simp add: andThen_def)
qed

lemma AddIndexToStream_round:
  assumes "buckets \<noteq> []" "instances \<noteq> []"
  shows "AddIndexToStream cfg sid buckets instances rts (r # rs) =
     (case resolved r of
        Inl e \<Rightarrow> ([GetNodeListForBuckets buckets], Done (Some e))
      | Inr nodes \<Rightarrow>
          (let started = startRound sid buckets (AddInstances instances buckets rts) nodes;
               waited = waitWorkers (remdups (map snd nodes)) [] (donech r)
           in case snd waited of
                Starved \<Rightarrow> (started @ fst waited, Pending)
              | Failed e \<Rightarrow>
                  if code e \<noteq> ERROR_STREAM_WRONG_VBUCKET \<and>
                     code e \<noteq> ERROR_STREAM_INVALID_TIMESTAMP \<and>
                     code e \<noteq> ERROR_STREAM_INVALID_KVADDRS \<and>
                     code e \<noteq> ERROR_STREAM_PROJECTOR_TIMEOUT
                  then (started @ fst waited, Done (Some (ManagerError e)))
                  else andThen (started @ fst waited)
                         (AddIndexToStream cfg sid buckets instances rts rs)
              | AllDone activeTs \<Rightarrow>
                  if validateActiveVb cfg buckets activeTs
                  then (started @ fst waited @
                          [ValidateActiveVb True, MonitorStream sid activeTs], Done None)
                  else andThen (started @ fst waited @ [ValidateActiveVb False])
                         (AddIndexToStream cfg sid buckets instances rts rs)))"
proof -
  have eq: "\<And>x. AddIndexToStream cfg sid buckets instances rts x =
      addIndexRounds cfg sid buckets instances rts x"
    using assms by (simp add: AddIndexToStream_def)
  show ?thesis unfolding eq by simp
qed

lemma DeleteIndexFromStream_round:
  assumes "buckets \<noteq> []" "instances \<noteq> []"
  shows "DeleteIndexFromStream sid buckets instances (r # rs) =
     (case resolved r of
        Inl e \<Rightarrow> ([GetNodeListForBuckets buckets], Done (Some e))
      | Inr nodes \<Rightarrow>
          (let started = startRound sid buckets (DeleteInstances instances) nodes;
               waited = waitWorkers (remdups (map snd nodes)) [] (donech r)
           in case snd waited of
                Starved \<Rightarrow> (started @ fst waited, Pending)
              | Failed e \<Rightarrow>
                  if code e \<noteq> ERROR_STREAM_PROJECTOR_TIMEOUT
                  then (started @ fst waited, Done (Some (ManagerError e)))
                  else andThen (started @ fst waited)
                         (DeleteIndexFromStream sid buckets instances rs)
              | AllDone activeTs \<Rightarrow> (started @ fst waited, Done None)))"
proof -
  have eq: "\<And>x. DeleteIndexFromStream sid buckets instances x =
      deleteIndexRounds sid buckets instances x"
    using assms by (simp add: DeleteIndexFromStream_def)
  show ?thesis unfolding eq by simp
qed


text \<open>
  Claim C8 (no-op on empty input). \<open>AddIndexToStream\<close> with an empty list of buckets or
  an empty list of instances returns nil, for every stream, every request timestamps and
  every environment, and no event happens: the topology resolver is not called and no
  worker is started.
\<close>

theorem AddIndexToStream_noop:
  assumes "buckets = [] \<or> instances = []"
  shows "AddIndexToStream cfg sid buckets instances requestTimestamps rounds = ([], Done None)"
  using assms by (auto simp: AddIndexToStream_def)

lemma monitorGuarded_quiet:
  "list_all quiet xs \<Longrightarrow>
   monitorGuarded v (xs @ ys) = monitorGuarded (if xs = [] then v else False) ys"
proof (induction xs arbitrary: v)
  case Nil
  then show ?case by simp
next
  case (Cons x xs)
  then show ?case by (cases x) (auto split: if_splits)
qed

lemma quiet_waitWorkers: "list_all quiet (fst (waitWorkers workers ats arrivals))"
  by (induction workers ats arrivals rule: waitWorkers.induct)
     (auto simp: andThen_def list_all_iff split: option.splits)

lemma quiet_startRound: "list_all quiet (startRound sid buckets j nodes)"
  by (simp add: startRound_def list_all_iff)

lemma monitorGuarded_quiet_False:
  "list_all quiet xs \<Longrightarrow> monitorGuarded False (xs @ ys) = monitorGuarded False ys"
  by (simp add: monitorGuarded_quiet)

lemma monitorGuarded_round:
  "monitorGuarded v (startRound sid buckets j nodes @ fst (waitWorkers workers ats arrivals) @ ys)
     = monitorGuarded False ys"
proof -
  let ?sp = "map (\<lambda>srv. Spawn (newWorker srv sid) j) (map snd nodes)"
  have q: "list_all quiet (?sp @ fst (waitWorkers workers ats arrivals))"
    using quiet_waitWorkers[of workers ats arrivals] by (auto simp: list_all_iff)
  have "monitorGuarded v (startRound sid buckets j nodes @ fst (waitWorkers workers ats arrivals) @ ys)
      = monitorGuarded False ((?sp @ fst (waitWorkers workers ats arrivals)) @ ys)"
    by (simp add: startRound_def)
  also have "\<dots> = monitorGuarded False ys"
    using q by (rule monitorGuarded_quiet_False)
  finally show ?thesis .
qed

lemma monitorGuarded_addIndexRounds:
  "monitorGuarded False (fst (addIndexRounds cfg sid buckets instances rts rounds))"
proof (induction rounds)
  case Nil
  then show ?case by simp
next
  case (Cons r rs)
  show ?case
  proof (cases "resolved r")
    case (Inl e)
    then show ?thesis by simp
  next
    case (Inr nodes)
    let ?s = "startRound sid buckets (AddInstances instances buckets rts) nodes"
    let ?w = "waitWorkers (remdups (map snd nodes)) [] (donech r)"
    have a: "\<And>ys. monitorGuarded False (?s @ fst ?w @ ys) = monitorGuarded False ys"
      by (rule monitorGuarded_round)
    have b: "monitorGuarded False (?s @ fst ?w) = True"
      using a[of "[]"] by simp
    show ?thesis
    proof (cases "snd ?w")
      case (AllDone activeTs)
      then show ?thesis using Inr Cons.IH a
        by (simp add: andThen_def Let_def)
    next
      case (Failed e)
      then show ?thesis using Inr Cons.IH a b
        by (simp add: andThen_def Let_def)
    next
      case Starved
      then show ?thesis using Inr b by (simp add: Let_def)
    qed
  qed
qed

text \<open>
  Claim C1 (single-owner invariant check). With at most \<open>2^32\<close> partitions per bucket,
  \<open>validateActiveVb\<close> over the requested buckets and the accumulated active timestamps is
  true exactly when every pair of a requested bucket and a partition below \<open>NUM_VB\<close> is
  covered by exactly one entry of the active timestamps. In a round of \<open>AddIndexToStream\<close>
  that receives its workers without a worker error, a pair covered zero times or more than
  once makes the call go on with the next round, without a call of \<open>monitorStream\<close> and
  without a return from this round; when every pair is covered once, \<open>monitorStream\<close> is
  called with the accumulated timestamps and the call returns nil. In every run, every call
  of \<open>monitorStream\<close> directly follows an invariant check that returned true.
\<close>

theorem AddIndexToStream_single_owner:
  assumes "NUM_VB cfg \<le> 2 ^ 32"
  shows "(validateActiveVb cfg buckets activeTs \<longleftrightarrow>
            (\<forall>bucket\<in>set buckets. \<forall>vb<NUM_VB cfg. coverage activeTs bucket vb = 1))
       \<and> (buckets \<noteq> [] \<and> instances \<noteq> [] \<and> resolved r = Inr nodes \<and>
          waitWorkers (remdups (map snd nodes)) [] (donech r) = (received, AllDone activeTs) \<longrightarrow>
          AddIndexToStream cfg sid buckets instances requestTimestamps (r # rs) =
            (if \<forall>bucket\<in>set buckets. \<forall>vb<NUM_VB cfg. coverage activeTs bucket vb = 1
             then (startRound sid buckets (AddInstances instances buckets requestTimestamps) nodes
                     @ received @ [ValidateActiveVb True, MonitorStream sid activeTs],
                   Done None)
             else andThen
                    (startRound sid buckets (AddInstances instances buckets requestTimestamps) nodes
                       @ received @ [ValidateActiveVb False])
                    (AddIndexToStream cfg sid buckets instances requestTimestamps rs)))
       \<and> monitorGuarded False
            (fst (AddIndexToStream cfg sid buckets instances requestTimestamps rounds))"
proof (intro conjI impI)
  show v: "validateActiveVb cfg buckets activeTs \<longleftrightarrow>
            (\<forall>bucket\<in>set buckets. \<forall>vb<NUM_VB cfg. coverage activeTs bucket vb = 1)"
    using assms by (rule validateActiveVb_iff)
  show "monitorGuarded False
            (fst (AddIndexToStream cfg sid buckets instances requestTimestamps rounds))"
    using monitorGuarded_addIndexRounds by (simp add: AddIndexToStream_def)
  assume h: "buckets \<noteq> [] \<and> instances \<noteq> [] \<and> resolved r = Inr nodes \<and>
          waitWorkers (remdups (map snd nodes)) [] (donech r) = (received, AllDone activeTs)"
  then have b: "buckets \<noteq> []" and i: "instances \<noteq> []" by simp_all
  show "AddIndexToStream cfg sid buckets instances requestTimestamps (r # rs) =
            (if \<forall>bucket\<in>set buckets. \<forall>vb<NUM_VB cfg. coverage activeTs bucket vb = 1
             then (startRound sid buckets (AddInstances instances buckets requestTimestamps) nodes
                     @ received @ [ValidateActiveVb True, MonitorStream sid activeTs],
                   Done None)
             else andThen
                    (startRound sid buckets (AddInstances instances buckets requestTimestamps) nodes
                       @ received @ [ValidateActiveVb False])
                    (AddIndexToStream cfg sid buckets instances requestTimestamps rs))"
    unfolding v[symmetric] using h by (simp add: AddIndexToStream_round[OF b i] Let_def)
qed

text \<open>
  Claim C4 as stated fails. Nodes \<open>A\<close> and \<open>B\<close> are started; the worker of \<open>A\<close> reports
  \<open>ERROR_STREAM_REQUEST_ERROR\<close> and nothing else is on the results channel. The
  orchestrator sends the kill signal to \<open>B\<close> and returns the error: it has not received
  the worker of \<open>B\<close>, which has not reported.
\<close>

theorem AddIndexToStream_join_counterexample:
  "AddIndexToStream cfg0 1 [''b''] [5] [] [roundFatal] =
     ([GetNodeListForBuckets [''b''],
       Spawn (newWorker ''A'' 1) (AddInstances [5] [''b''] []),
       Spawn (newWorker ''B'' 1) (AddInstances [5] [''b''] []),
       Receive workerA_fatal,
       Kill ''B''],
      Done (Some (ManagerError fatalError)))"
  by (simp add: AddIndexToStream_def roundFatal_def nodesAB_def startRound_def
      workerA_fatal_def fatalError_def NewError_def newWorker_def)

text \<open>
  Claim C4 (join before return), as amended. The orchestrator registers the workers of a
  round by server. In a round of \<open>AddIndexToStream\<close> in which the receive loop ends
  without a worker error, the workers received all report a nil error and, before the
  invariant check (and so before the return or the next round), a worker has been received
  for every server of the node map, that is for every server for which a worker was
  started; when the servers of the node map are pairwise distinct, at least as many workers
  have been received as were started. In a round in which the orchestrator receives a
  worker with a non-nil error, after workers with a nil error and while a started server is
  still awaited, it sends the kill signal to the worker registered under every server from
  which it has received no worker, receives nothing more in the round, and returns the
  error when its code is not recoverable or starts the next round otherwise.
\<close>

theorem AddIndexToStream_join:
  assumes "buckets \<noteq> []" and "instances \<noteq> []" and "resolved r = Inr nodes"
  shows "(waitWorkers (remdups (map snd nodes)) [] (donech r) = (received, AllDone activeTs) \<longrightarrow>
            (\<exists>k\<le>length (donech r).
                received = map Receive (take k (donech r))
              \<and> (\<forall>p\<in>set (take k (donech r)). err p = None)
              \<and> set (map snd nodes) \<subseteq> server ` set (take k (donech r))
              \<and> (distinct (map snd nodes) \<longrightarrow> length nodes \<le> k))
          \<and> (\<exists>tail. fst (AddIndexToStream cfg sid buckets instances requestTimestamps (r # rs)) =
                 startRound sid buckets (AddInstances instances buckets requestTimestamps) nodes
                   @ received @ ValidateActiveVb (validateActiveVb cfg buckets activeTs) # tail))
       \<and> (donech r = pre @ w # post \<and> (\<forall>p\<in>set pre. err p = None) \<and>
          \<not> set (map snd nodes) \<subseteq> server ` set pre \<and> err w = Some e \<longrightarrow>
          AddIndexToStream cfg sid buckets instances requestTimestamps (r # rs) =
            (if code e \<noteq> ERROR_STREAM_WRONG_VBUCKET \<and>
                code e \<noteq> ERROR_STREAM_INVALID_TIMESTAMP \<and>
                code e \<noteq> ERROR_STREAM_INVALID_KVADDRS \<and>
                code e \<noteq> ERROR_STREAM_PROJECTOR_TIMEOUT
             then (startRound sid buckets (AddInstances instances buckets requestTimestamps) nodes
                     @ map Receive (pre @ [w])
                     @ map Kill (unreceived (remdups (map snd nodes)) (pre @ [w])),
                   Done (Some (ManagerError e)))
             else andThen
                    (startRound sid buckets (AddInstances instances buckets requestTimestamps) nodes
                       @ map Receive (pre @ [w])
                       @ map Kill (unreceived (remdups (map snd nodes)) (pre @ [w])))
                    (AddIndexToStream cfg sid buckets instances requestTimestamps rs)))"
proof (intro conjI impI)
  assume h: "waitWorkers (remdups (map snd nodes)) [] (donech r) = (received, AllDone activeTs)"
  from waitWorkers_AllDone[OF h]
  obtain k where k: "k \<le> length (donech r)" "received = map Receive (take k (donech r))"
      "\<forall>p\<in>set (take k (donech r)). err p = None"
      "set (map snd nodes) \<subseteq> server ` set (take k (donech r))"
    by auto
  have "distinct (map snd nodes) \<longrightarrow> length nodes \<le> k"
  proof
    assume d: "distinct (map snd nodes)"
    have "length nodes = card (set (map snd nodes))"
      using distinct_card[OF d] by simp
    also have "\<dots> \<le> card (server ` set (take k (donech r)))"
      using k(4) by (intro card_mono) simp_all
    also have "\<dots> \<le> card (set (take k (donech r)))"
      by (rule card_image_le) simp
    also have "\<dots> \<le> length (take k (donech r))"
      by (rule card_length)
    also have "\<dots> = k" using k(1) by simp
    finally show "length nodes \<le> k" .
  qed
  with k show "\<exists>k\<le>length (donech r).
                received = map Receive (take k (donech r))
              \<and> (\<forall>p\<in>set (take k (donech r)). err p = None)
              \<and> set (map snd nodes) \<subseteq> server ` set (take k (donech r))
              \<and> (distinct (map snd nodes) \<longrightarrow> length nodes \<le> k)"
    by blast
  show "\<exists>tail. fst (AddIndexToStream cfg sid buckets instances requestTimestamps (r # rs)) =
                 startRound sid buckets (AddInstances instances buckets requestTimestamps) nodes
                   @ received @ ValidateActiveVb (validateActiveVb cfg buckets activeTs) # tail"
    using h assms(3)
    by (simp add: AddIndexToStream_round[OF assms(1,2)] Let_def andThen_def)
next
  assume h: "donech r = pre @ w # post \<and> (\<forall>p\<in>set pre. err p = None) \<and>
          \<not> set (map snd nodes) \<subseteq> server ` set pre \<and> err w = Some e"
  then have u: "unreceived (remdups (map snd nodes)) pre \<noteq> []"
    by (simp add: unreceived_empty_iff)
  have "waitWorkers (remdups (map snd nodes)) [] (pre @ w # post) =
      (map Receive (pre @ [w]) @ map Kill (unreceived (remdups (map snd nodes)) (pre @ [w])), Failed e)"
    using h u by (intro waitWorkers_error) simp_all
  then show "AddIndexToStream cfg sid buckets instances requestTimestamps (r # rs) =
            (if code e \<noteq> ERROR_STREAM_WRONG_VBUCKET \<and>
                code e \<noteq> ERROR_STREAM_INVALID_TIMESTAMP \<and>
                code e \<noteq> ERROR_STREAM_INVALID_KVADDRS \<and>
                code e \<noteq> ERROR_STREAM_PROJECTOR_TIMEOUT
             then (startRound sid buckets (AddInstances instances buckets requestTimestamps) nodes
                     @ map Receive (pre @ [w])
                     @ map Kill (unreceived (remdups (map snd nodes)) (pre @ [w])),
                   Done (Some (ManagerError e)))
             else andThen
                    (startRound sid buckets (AddInstances instances buckets requestTimestamps) nodes
                       @ map Receive (pre @ [w])
                       @ map Kill (unreceived (remdups (map snd nodes)) (pre @ [w])))
                    (AddIndexToStream cfg sid buckets instances requestTimestamps rs))"
    using h assms(3) by (simp add: AddIndexToStream_round[OF assms(1,2)] Let_def)
qed

text \<open>
  Two workers are started for the one server, one is received, and the orchestrator
  returns its error: no worker is registered any more, so that no kill signal is sent and
  the second worker is not awaited.
\<close>

lemma AddIndexToStream_two_keys_one_server:
  "AddIndexToStream cfg0 1 [''b''] [5] [] [twoKeys] =
     ([GetNodeListForBuckets [''b''],
       Spawn (newWorker ''A'' 1) (AddInstances [5] [''b''] []),
       Spawn (newWorker ''A'' 1) (AddInstances [5] [''b''] []),
       Receive ((newWorker ''A'' 1)\<lparr>err := Some fatalError\<rparr>)],
      Done (Some (ManagerError fatalError)))"
  by (simp add: AddIndexToStream_def twoKeys_def startRound_def
      fatalError_def NewError_def newWorker_def)

text \<open>
  Claim C7 (topology retry of \<open>RestartStreamIfNecessary\<close>) fails on the code for an error
  of the resolver that is not the package's \<open>Error\<close>: the claim says that the error is
  returned to the caller, the code panics at the type assertion \<open>err.(Error)\<close>, before
  \<open>return err\<close>.
\<close>

theorem RestartStreamIfNecessary_foreign_error_panics:
  "RestartStreamIfNecessary 1 [cts0] [roundNoBucket] = ([GetNodeListForTimestamps [cts0]], Panic)"
  by (simp add: RestartStreamIfNecessary_def roundNoBucket_def)

text \<open>
  For an error of the resolver that is the package's \<open>Error\<close>, the assertion holds and
  the code of the error decides: \<open>ERROR_STREAM_INCONSISTENT_VBMAP\<close> starts the next round
  and is not returned; every other code is returned at once, no worker being started.
\<close>

lemma RestartStreamIfNecessary_manager_error:
  assumes "restartTimestamps \<noteq> []" and "resolved r = Inl (ManagerError e)"
  shows "RestartStreamIfNecessary sid restartTimestamps (r # rs) =
     (if code e = ERROR_STREAM_INCONSISTENT_VBMAP
      then andThen [GetNodeListForTimestamps restartTimestamps]
             (RestartStreamIfNecessary sid restartTimestamps rs)
      else ([GetNodeListForTimestamps restartTimestamps], Done (Some (ManagerError e))))"
  using assms by (simp add: RestartStreamIfNecessary_def)

theorem AddIndexToStream_single_owner_witness:
  "NUM_VB cfg0 \<le> 2 ^ 32 \<and> validateActiveVb cfg0 [''b''] [tsFull] \<and>
   AddIndexToStream cfg0 1 [''b''] [5] [] [roundOk] =
     ([GetNodeListForBuckets [''b''],
       Spawn (newWorker ''A'' 1) (AddInstances [5] [''b''] []),
       Receive workerA_ok,
       ValidateActiveVb True,
       MonitorStream 1 [tsFull]],
      Done None)"
proof -
  have n: "NUM_VB cfg0 \<le> 2 ^ 32" by (simp add: cfg0_def)
  note T = AddIndexToStream_single_owner[OF n, where buckets = "[''b'']" and activeTs = "[tsFull]"
      and instances = "[5]" and r = roundOk and nodes = "[(''A'', ''A'')]"
      and received = "[Receive workerA_ok]" and sid = 1 and requestTimestamps = "[]" and rs = "[]"]
  have c: "\<forall>bucket\<in>set [''b'']. \<forall>vb<NUM_VB cfg0. coverage [tsFull] bucket vb = 1"
    by (auto simp: cfg0_def coverage_def tsFull_def dest!: less_2_cases)
  have w: "waitWorkers (remdups (map snd [(''A'', ''A'')])) [] (donech roundOk)
      = ([Receive workerA_ok], AllDone [tsFull])"
    by (simp add: roundOk_def workerA_ok_def newWorker_def andThen_def)
  have v: "validateActiveVb cfg0 [''b''] [tsFull]" using T c by blast
  have "AddIndexToStream cfg0 1 [''b''] [5] [] [roundOk] =
      (startRound 1 [''b''] (AddInstances [5] [''b''] []) [(''A'', ''A'')]
         @ [Receive workerA_ok] @ [ValidateActiveVb True, MonitorStream 1 [tsFull]], Done None)"
    using T c w by (simp add: roundOk_def)
  then show ?thesis using n v by (simp add: startRound_def)
qed

theorem AddIndexToStream_join_witness:
  "AddIndexToStream cfg0 1 [''b''] [5] [] [roundFatal, roundOk] =
     ([GetNodeListForBuckets [''b''],
       Spawn (newWorker ''A'' 1) (AddInstances [5] [''b''] []),
       Spawn (newWorker ''B'' 1) (AddInstances [5] [''b''] []),
       Receive workerA_fatal,
       Kill ''B''],
      Done (Some (ManagerError fatalError)))"
proof -
  have a: "[''b''] \<noteq> []" "[5::nat] \<noteq> []" "resolved roundFatal = Inr nodesAB"
    by (simp_all add: roundFatal_def)
  note T = AddIndexToStream_join[OF a, where pre = "[]" and w = workerA_fatal and post = "[]"
      and e = fatalError and cfg = cfg0 and sid = 1 and requestTimestamps = "[]" and rs = "[roundOk]"]
  have h: "donech roundFatal = [] @ workerA_fatal # [] \<and> (\<forall>p\<in>set []. err p = None) \<and>
          \<not> set (map snd nodesAB) \<subseteq> server ` set [] \<and> err workerA_fatal = Some fatalError"
    by (simp add: roundFatal_def nodesAB_def workerA_fatal_def)
  have c: "code fatalError = ERROR_STREAM_REQUEST_ERROR" by (simp add: fatalError_def NewError_def)
  have u: "unreceived (remdups (map snd nodesAB)) ([] @ [workerA_fatal]) = [''B'']"
    by (simp add: unreceived_def nodesAB_def workerA_fatal_def newWorker_def)
  from T h have "AddIndexToStream cfg0 1 [''b''] [5] [] (roundFatal # [roundOk]) =
      (startRound 1 [''b''] (AddInstances [5] [''b''] []) nodesAB
         @ map Receive ([] @ [workerA_fatal])
         @ map Kill (unreceived (remdups (map snd nodesAB)) ([] @ [workerA_fatal])),
       Done (Some (ManagerError fatalError)))"
    by (simp add: c)
  then show ?thesis unfolding u by (simp add: startRound_def nodesAB_def)
qed


theorem AddIndexToStream_noop_witness:
  "AddIndexToStream cfg0 1 [] [5] [] [roundOk] = ([], Done None) \<and>
   AddIndexToStream cfg0 1 [''b''] [] [] [roundOk] = ([], Done None)"
proof
  show "AddIndexToStream cfg0 1 [] [5] [] [roundOk] = ([], Done None)"
    by (rule AddIndexToStream_noop) simp
  show "AddIndexToStream cfg0 1 [''b''] [] [] [roundOk] = ([], Done None)"
    by (rule AddIndexToStream_noop) simp
qed

section \<open>Properties of the workers\<close>

lemma deleteLoop_topicMissing:
  assumes "\<forall>p\<in>set pre. retried cfg startTime p" "topicMissing cfg a"
  shows "snd (deleteLoop cfg worker topic instances startTime (pre @ a # rest))
           = Done (worker\<lparr>err := None\<rparr>)"
  using assms
  by (induction pre) (auto simp: retried_def topicMissing_def call_def split: option.splits)

lemma repairLoop_topicMissing:
  assumes "\<forall>p\<in>set pre. retried cfg startTime p" "topicMissing cfg a"
  shows "snd (repairLoop cfg worker topic endpoint startTime (pre @ a # rest))
           = Done (worker\<lparr>err := None\<rparr>)"
  using assms
  by (induction pre) (auto simp: retried_def topicMissing_def call_def split: option.splits)

lemma RepairEndpointForStream_round:
  assumes "bucketVbnosMap \<noteq> []"
  shows "RepairEndpointForStream sid bucketVbnosMap endpoint (r # rs) =
     (let buckets = map fst bucketVbnosMap in
      case resolved r of
        Inl e \<Rightarrow> ([GetNodeListForBuckets buckets], Done (Some e))
      | Inr nodes \<Rightarrow>
          (let started = startRound sid buckets (RepairEndpoint endpoint) nodes;
               waited = waitWorkers (remdups (map snd nodes)) [] (donech r)
           in case snd waited of
                Starved \<Rightarrow> (started @ fst waited, Pending)
              | Failed e \<Rightarrow>
                  if code e \<noteq> ERROR_STREAM_PROJECTOR_TIMEOUT
                  then (started @ fst waited, Done (Some (ManagerError e)))
                  else andThen (started @ fst waited)
                         (RepairEndpointForStream sid bucketVbnosMap endpoint rs)
              | AllDone activeTs \<Rightarrow> (started @ fst waited, Done None)))"
proof -
  have eq: "\<And>x. RepairEndpointForStream sid bucketVbnosMap endpoint x =
      repairEndpointRounds sid bucketVbnosMap endpoint x"
    using assms by (simp add: RepairEndpointForStream_def)
  show ?thesis unfolding eq by simp
qed

lemma DeleteIndexFromStream_no_error:
  assumes "resolved r = Inr nodes" "\<forall>w\<in>set (donech r). err w = None"
    "set (map snd nodes) \<subseteq> server ` set (donech r)"
  shows "snd (DeleteIndexFromStream sid buckets instances (r # rs)) = Done None"
proof (cases "buckets \<noteq> [] \<and> instances \<noteq> []")
  case False
  then show ?thesis by (auto simp: DeleteIndexFromStream_def)
next
  case True
  obtain evs ats' where "waitWorkers (remdups (map snd nodes)) [] (donech r) = (evs, AllDone ats')"
    using waitWorkers_no_error[OF assms(2), of "remdups (map snd nodes)" "[]"] assms(3) by auto
  then show ?thesis using True assms(1) by (simp add: DeleteIndexFromStream_round Let_def)
qed

lemma RepairEndpointForStream_no_error:
  assumes "resolved r = Inr nodes" "\<forall>w\<in>set (donech r). err w = None"
    "set (map snd nodes) \<subseteq> server ` set (donech r)"
  shows "snd (RepairEndpointForStream sid bucketVbnosMap endpoint (r # rs)) = Done None"
proof (cases "bucketVbnosMap \<noteq> []")
  case False
  then show ?thesis by (auto simp: RepairEndpointForStream_def)
next
  case True
  obtain evs ats' where "waitWorkers (remdups (map snd nodes)) [] (donech r) = (evs, AllDone ats')"
    using waitWorkers_no_error[OF assms(2), of "remdups (map snd nodes)" "[]"] assms(3) by auto
  then show ?thesis using True assms(1) by (simp add: RepairEndpointForStream_round Let_def)
qed

text \<open>
  Claim C6 (idempotent delete and repair against a missing topic). A \<open>deleteInstances\<close> or
  \<open>repairEndpoint\<close> worker whose call fails with an error that contains the text of
  \<open>ErrorTopicMissing\<close>, at the first pass of its loop or after passes that were retried,
  ends with a nil error. Hence a round of \<open>DeleteIndexFromStream\<close> or of
  \<open>RepairEndpointForStream\<close> in which every started worker reports, each after such a
  failure, returns nil.
\<close>

theorem topic_missing_is_success:
  assumes "\<forall>p\<in>set pre. retried cfg startTime p" and "topicMissing cfg a"
  shows "snd (deleteInstances cfg worker True instances startTime (pre @ a # rest))
           = Done (worker\<lparr>err := None\<rparr>)
       \<and> snd (repairEndpoint cfg worker True endpoint startTime (pre @ a # rest))
           = Done (worker\<lparr>err := None\<rparr>)
       \<and> (resolved r = Inr nodes \<and> set (map snd nodes) \<subseteq> server ` set (donech r) \<and>
          (\<forall>w\<in>set (donech r). \<exists>w0 t0 pre0 a0 rest0.
              (\<forall>p\<in>set pre0. retried cfg t0 p) \<and> topicMissing cfg a0 \<and>
              snd (deleteInstances cfg w0 True instances t0 (pre0 @ a0 # rest0)) = Done w) \<longrightarrow>
          snd (DeleteIndexFromStream sid buckets instances (r # rs)) = Done None)
       \<and> (resolved r = Inr nodes \<and> set (map snd nodes) \<subseteq> server ` set (donech r) \<and>
          (\<forall>w\<in>set (donech r). \<exists>w0 t0 pre0 a0 rest0.
              (\<forall>p\<in>set pre0. retried cfg t0 p) \<and> topicMissing cfg a0 \<and>
              snd (repairEndpoint cfg w0 True endpoint t0 (pre0 @ a0 # rest0)) = Done w) \<longrightarrow>
          snd (RepairEndpointForStream sid bucketVbnosMap endpoint (r # rs)) = Done None)"
proof (intro conjI impI)
  show "snd (deleteInstances cfg worker True instances startTime (pre @ a # rest))
           = Done (worker\<lparr>err := None\<rparr>)"
    using assms by (simp add: deleteInstances_def deleteLoop_topicMissing)
  show "snd (repairEndpoint cfg worker True endpoint startTime (pre @ a # rest))
           = Done (worker\<lparr>err := None\<rparr>)"
    using assms by (simp add: repairEndpoint_def repairLoop_topicMissing)
next
  assume h: "resolved r = Inr nodes \<and> set (map snd nodes) \<subseteq> server ` set (donech r) \<and>
          (\<forall>w\<in>set (donech r). \<exists>w0 t0 pre0 a0 rest0.
              (\<forall>p\<in>set pre0. retried cfg t0 p) \<and> topicMissing cfg a0 \<and>
              snd (deleteInstances cfg w0 True instances t0 (pre0 @ a0 # rest0)) = Done w)"
  have "\<forall>w\<in>set (donech r). err w = None"
  proof
    fix w assume "w \<in> set (donech r)"
    with h obtain w0 t0 pre0 a0 rest0 where
      "\<forall>p\<in>set pre0. retried cfg t0 p" "topicMissing cfg a0"
      "snd (deleteInstances cfg w0 True instances t0 (pre0 @ a0 # rest0)) = Done w" by blast
    then have "Done w = Done (w0\<lparr>err := None\<rparr>)"
      by (simp add: deleteInstances_def deleteLoop_topicMissing)
    then show "err w = None" by simp
  qed
  then show "snd (DeleteIndexFromStream sid buckets instances (r # rs)) = Done None"
    using h by (intro DeleteIndexFromStream_no_error[where nodes = nodes]) simp_all
next
  assume h: "resolved r = Inr nodes \<and> set (map snd nodes) \<subseteq> server ` set (donech r) \<and>
          (\<forall>w\<in>set (donech r). \<exists>w0 t0 pre0 a0 rest0.
              (\<forall>p\<in>set pre0. retried cfg t0 p) \<and> topicMissing cfg a0 \<and>
              snd (repairEndpoint cfg w0 True endpoint t0 (pre0 @ a0 # rest0)) = Done w)"
  have "\<forall>w\<in>set (donech r). err w = None"
  proof
    fix w assume "w \<in> set (donech r)"
    with h obtain w0 t0 pre0 a0 rest0 where
      "\<forall>p\<in>set pre0. retried cfg t0 p" "topicMissing cfg a0"
      "snd (repairEndpoint cfg w0 True endpoint t0 (pre0 @ a0 # rest0)) = Done w" by blast
    then have "Done w = Done (w0\<lparr>err := None\<rparr>)"
      by (simp add: repairEndpoint_def repairLoop_topicMissing)
    then show "err w = None" by simp
  qed
  then show "snd (RepairEndpointForStream sid bucketVbnosMap endpoint (r # rs)) = Done None"
    using h by (intro RepairEndpointForStream_no_error[where nodes = nodes]) simp_all
qed

lemma Contains_missing: "Contains ''projector: feed.topicMissing'' ''feed.topicMissing''"
  unfolding Contains_def by (rule sublist_appendI[of _ "''projector: ''" "[]", simplified])

lemma not_Contains_refused: "\<not> Contains ''connection refused'' ''feed.topicMissing''"
  unfolding Contains_def by code_simp

theorem topic_missing_is_success_witness:
  "retried cfg0 0 attemptBusy \<and> topicMissing cfg0 attemptMissing \<and>
   snd (deleteInstances cfg0 (newWorker ''A'' 1) True [9] 0 [attemptBusy, attemptMissing])
     = Done (newWorker ''A'' 1) \<and>
   snd (repairEndpoint cfg0 (newWorker ''A'' 1) True ''ep'' 0 [attemptBusy, attemptMissing])
     = Done (newWorker ''A'' 1) \<and>
   snd (DeleteIndexFromStream 1 [''b''] [9] [roundGone]) = Done None \<and>
   snd (RepairEndpointForStream 1 [(''b'', [0, 1])] ''ep'' [roundGone]) = Done None"
proof -
  have b: "retried cfg0 0 attemptBusy"
    by (simp add: retried_def attemptBusy_def cfg0_def not_Contains_refused)
  have m: "topicMissing cfg0 attemptMissing"
    by (simp add: topicMissing_def attemptMissing_def cfg0_def Contains_missing)
  have p: "\<forall>p\<in>set [attemptBusy]. retried cfg0 0 p" using b by simp
  have w: "(newWorker ''A'' 1)\<lparr>err := None\<rparr> = newWorker ''A'' 1" by (simp add: newWorker_def)
  note T = topic_missing_is_success[OF p m, where worker = "newWorker ''A'' 1"
      and instances = "[9]" and endpoint = "''ep''" and rest = "[]" and r = roundGone
      and nodes = "[(''A'', ''A'')]" and sid = 1 and buckets = "[''b'']"
      and bucketVbnosMap = "[(''b'', [0, 1])]" and rs = "[]"]
  have d: "snd (deleteInstances cfg0 (newWorker ''A'' 1) True [9] 0 [attemptBusy, attemptMissing])
     = Done (newWorker ''A'' 1)" using T w by simp
  have r: "snd (repairEndpoint cfg0 (newWorker ''A'' 1) True ''ep'' 0 [attemptBusy, attemptMissing])
     = Done (newWorker ''A'' 1)" using T w by simp
  have g: "resolved roundGone = Inr [(''A'', ''A'')]"
      "set (map snd [(''A'', ''A'')]) \<subseteq> server ` set (donech roundGone)"
    by (simp_all add: roundGone_def newWorker_def)
  have "\<exists>w0 t0 pre0 a0 rest0.
              (\<forall>p\<in>set pre0. retried cfg0 t0 p) \<and> topicMissing cfg0 a0 \<and>
              snd (deleteInstances cfg0 w0 True [9] t0 (pre0 @ a0 # rest0)) = Done (newWorker ''A'' 1)"
    apply (rule exI[of _ "newWorker ''A'' 1"])
    apply (rule exI[of _ 0])
    apply (rule exI[of _ "[attemptBusy]"])
    apply (rule exI[of _ attemptMissing])
    apply (rule exI[of _ "[]"])
    using p m d by simp
  then have hd: "\<forall>w\<in>set (donech roundGone). \<exists>w0 t0 pre0 a0 rest0.
              (\<forall>p\<in>set pre0. retried cfg0 t0 p) \<and> topicMissing cfg0 a0 \<and>
              snd (deleteInstances cfg0 w0 True [9] t0 (pre0 @ a0 # rest0)) = Done w"
    by (simp add: roundGone_def)
  have "\<exists>w0 t0 pre0 a0 rest0.
              (\<forall>p\<in>set pre0. retried cfg0 t0 p) \<and> topicMissing cfg0 a0 \<and>
              snd (repairEndpoint cfg0 w0 True ''ep'' t0 (pre0 @ a0 # rest0)) = Done (newWorker ''A'' 1)"
    apply (rule exI[of _ "newWorker ''A'' 1"])
    apply (rule exI[of _ 0])
    apply (rule exI[of _ "[attemptBusy]"])
    apply (rule exI[of _ attemptMissing])
    apply (rule exI[of _ "[]"])
    using p m r by simp
  then have hr: "\<forall>w\<in>set (donech roundGone). \<exists>w0 t0 pre0 a0 rest0.
              (\<forall>p\<in>set pre0. retried cfg0 t0 p) \<and> topicMissing cfg0 a0 \<and>
              snd (repairEndpoint cfg0 w0 True ''ep'' t0 (pre0 @ a0 # rest0)) = Done w"
    by (simp add: roundGone_def)
  have "snd (DeleteIndexFromStream 1 [''b''] [9] [roundGone]) = Done None"
    using T g hd by blast
  moreover have "snd (RepairEndpointForStream 1 [(''b'', [0, 1])] ''ep'' [roundGone]) = Done None"
    using T g hr by blast
  ultimately show ?thesis using b m d r by simp
qed

lemma recomputeAll_wf:
  assumes "\<forall>t\<in>set rbs. wf_ts t"
  shows "\<forall>t\<in>set ts. wf_ts t \<Longrightarrow> \<exists>ts'. recomputeAll cfg ts rbs = Some ts'"
proof (induction ts)
  case Nil
  then show ?case by simp
next
  case (Cons t ts)
  then have "wf_ts t" by simp
  then have "\<exists>t'. recomputeRequestTimestamp cfg t rbs = Some t'"
    using assms by (simp add: recompute_eq)
  moreover have "\<exists>ts'. recomputeAll cfg ts rbs = Some ts'" using Cons by simp
  ultimately show ?case by auto
qed

lemma Contains_self: "Contains s s"
  by (simp add: Contains_def)

text \<open>
  Claim C3 as stated fails. The first call of the worker fails with the text of
  \<open>ErrorNotMyVbucket\<close>, one second after the start and with a ceiling of 300 seconds:
  the worker ends at once with \<open>ERROR_STREAM_WRONG_VBUCKET\<close>, and the rollback timestamp
  of the response is not used.
\<close>

theorem addInstances_node_errors_counterexample:
  "addLoop cfg0 (newWorker ''A'' 1) ''MAINT_STREAM_TOPIC'' [5] 0 [ts7] [attemptNotMine] =
     ([MutationTopicRequest ''MAINT_STREAM_TOPIC'' ''dataport'' [ts7] [5]], Done workerA_wrong)
   \<and> clock attemptNotMine - 0 < MAX_PROJECTOR_RETRY_ELAPSED_TIME cfg0"
proof -
  have a: "\<not> Contains ''feed.notMyVbucket'' ''feed.topicExist''"
    unfolding Contains_def by code_simp
  have b: "\<not> Contains ''feed.notMyVbucket'' ''feed.inconsistentFeed''"
    unfolding Contains_def by code_simp
  have c: "Contains ''feed.notMyVbucket'' ''feed.notMyVbucket''" by (rule Contains_self)
  have "shouldRetryAddInstances cfg0 [ts7] (response attemptNotMine) ''feed.notMyVbucket''
      = Some (Inl (NewError ERROR_STREAM_WRONG_VBUCKET ''feed.notMyVbucket'' []))"
    using a b c by (simp add: shouldRetryAddInstances_def cfg0_def)
  then show ?thesis
    by (simp add: attemptNotMine_def workerA_wrong_def newWorker_def cfg0_def)
qed

lemma recomputeAll_map:
  "recomputeAll cfg ts rbs = Some ts' \<Longrightarrow>
   map (\<lambda>t. recomputeRequestTimestamp cfg t rbs) ts = map Some ts'"
  by (induction ts arbitrary: ts') (auto split: option.splits)

text \<open>
  Claim C3 (node-scope errors), as amended. Take a pass of the retry loop of
  \<open>addInstances\<close> that is not killed and whose \<open>MutationTopicRequest\<close> fails. If the
  text of the error contains the text of \<open>ErrorTopicExist\<close> or of
  \<open>ErrorInconsistentFeed\<close>, the worker ends at once with
  \<open>ERROR_STREAM_REQUEST_ERROR\<close>. Otherwise, if it contains the text of
  \<open>ErrorNotMyVbucket\<close>, \<open>ErrorInvalidVbucketBranch\<close> or \<open>ErrorInvalidKVaddrs\<close>, the
  worker ends at once, whatever the elapsed time and without rollback reconciliation, with
  the error code \<open>ERROR_STREAM_WRONG_VBUCKET\<close>, \<open>ERROR_STREAM_INVALID_TIMESTAMP\<close> or
  \<open>ERROR_STREAM_INVALID_KVADDRS\<close> (the first text that matches, in this order); in both
  cases the worker keeps the active timestamps of the response. Otherwise, when the request
  timestamps and the rollback timestamps of the response are well formed, every request
  timestamp is replaced by its \<open>recomputeRequestTimestamp\<close> against the rollback
  timestamps; the call is then made again with the new timestamps if the elapsed time is
  below the ceiling, and the worker ends with \<open>ERROR_STREAM_PROJECTOR_TIMEOUT\<close> if it is
  not. \<open>AddIndexToStream\<close>, when it receives a worker whose error code is one of the three
  node-retry codes, after workers with a nil error and while a started server is still
  awaited, sends the kill signal to the workers registered under the servers not yet
  received and starts the next round.
\<close>

theorem addInstances_node_errors:
  assumes "\<not> killed a" and "failure a = Some errStr"
  shows "(Contains errStr (ErrorTopicExist cfg) \<or> Contains errStr (ErrorInconsistentFeed cfg) \<longrightarrow>
          addLoop cfg worker topic instances startTime timestamps (a # rest) =
            ([MutationTopicRequest topic ''dataport'' timestamps instances],
             Done (worker\<lparr>activeTimestamps := GetActiveTimestamps (response a),
                          err := Some (NewError ERROR_STREAM_REQUEST_ERROR errStr [])\<rparr>)))
       \<and> (\<not> Contains errStr (ErrorTopicExist cfg) \<and> \<not> Contains errStr (ErrorInconsistentFeed cfg)
            \<and> (Contains errStr (ErrorNotMyVbucket cfg)
                 \<or> Contains errStr (ErrorInvalidVbucketBranch cfg)
                 \<or> Contains errStr (ErrorInvalidKVaddrs cfg)) \<longrightarrow>
          addLoop cfg worker topic instances startTime timestamps (a # rest) =
            ([MutationTopicRequest topic ''dataport'' timestamps instances],
             Done (worker\<lparr>activeTimestamps := GetActiveTimestamps (response a),
                          err := Some (NewError (nodeRetryCode cfg errStr) errStr [])\<rparr>)))
       \<and> (\<not> Contains errStr (ErrorTopicExist cfg) \<and> \<not> Contains errStr (ErrorInconsistentFeed cfg)
            \<and> \<not> Contains errStr (ErrorNotMyVbucket cfg)
            \<and> \<not> Contains errStr (ErrorInvalidVbucketBranch cfg)
            \<and> \<not> Contains errStr (ErrorInvalidKVaddrs cfg)
            \<and> (\<forall>t\<in>set timestamps. wf_ts t)
            \<and> (\<forall>t\<in>set (GetRollbackTimestamps (response a)). wf_ts t) \<longrightarrow>
          (\<exists>timestamps'.
              map (\<lambda>t. recomputeRequestTimestamp cfg t (GetRollbackTimestamps (response a)))
                  timestamps = map Some timestamps'
            \<and> addLoop cfg worker topic instances startTime timestamps (a # rest) =
                (if clock a - startTime < MAX_PROJECTOR_RETRY_ELAPSED_TIME cfg
                 then call (MutationTopicRequest topic ''dataport'' timestamps instances)
                        (addLoop cfg worker topic instances startTime timestamps' rest)
                 else ([MutationTopicRequest topic ''dataport'' timestamps instances],
                       Done (worker\<lparr>err := Some timeoutError\<rparr>)))))
       \<and> (buckets \<noteq> [] \<and> instances \<noteq> [] \<and> resolved r = Inr nodes \<and> donech r = pre @ w # post \<and>
          (\<forall>p\<in>set pre. err p = None) \<and> \<not> set (map snd nodes) \<subseteq> server ` set pre \<and>
          err w = Some e \<and>
          (code e = ERROR_STREAM_WRONG_VBUCKET \<or> code e = ERROR_STREAM_INVALID_TIMESTAMP
             \<or> code e = ERROR_STREAM_INVALID_KVADDRS) \<longrightarrow>
          AddIndexToStream cfg sid buckets instances requestTimestamps (r # rs) =
            andThen
              (startRound sid buckets (AddInstances instances buckets requestTimestamps) nodes
                 @ map Receive (pre @ [w])
                 @ map Kill (unreceived (remdups (map snd nodes)) (pre @ [w])))
              (AddIndexToStream cfg sid buckets instances requestTimestamps rs))"
proof (intro conjI impI)
  assume h: "Contains errStr (ErrorTopicExist cfg) \<or> Contains errStr (ErrorInconsistentFeed cfg)"
  then have "shouldRetryAddInstances cfg timestamps (response a) errStr =
      Some (Inl (NewError ERROR_STREAM_REQUEST_ERROR errStr []))"
    by (auto simp: shouldRetryAddInstances_def)
  then show "addLoop cfg worker topic instances startTime timestamps (a # rest) =
            ([MutationTopicRequest topic ''dataport'' timestamps instances],
             Done (worker\<lparr>activeTimestamps := GetActiveTimestamps (response a),
                          err := Some (NewError ERROR_STREAM_REQUEST_ERROR errStr [])\<rparr>))"
    using assms by simp
next
  assume h: "\<not> Contains errStr (ErrorTopicExist cfg) \<and> \<not> Contains errStr (ErrorInconsistentFeed cfg)
            \<and> (Contains errStr (ErrorNotMyVbucket cfg)
                 \<or> Contains errStr (ErrorInvalidVbucketBranch cfg)
                 \<or> Contains errStr (ErrorInvalidKVaddrs cfg))"
  then have "shouldRetryAddInstances cfg timestamps (response a) errStr =
      Some (Inl (NewError (nodeRetryCode cfg errStr) errStr []))"
    by (auto simp: shouldRetryAddInstances_def nodeRetryCode_def)
  then show "addLoop cfg worker topic instances startTime timestamps (a # rest) =
            ([MutationTopicRequest topic ''dataport'' timestamps instances],
             Done (worker\<lparr>activeTimestamps := GetActiveTimestamps (response a),
                          err := Some (NewError (nodeRetryCode cfg errStr) errStr [])\<rparr>))"
    using assms by simp
next
  assume h: "\<not> Contains errStr (ErrorTopicExist cfg) \<and> \<not> Contains errStr (ErrorInconsistentFeed cfg)
            \<and> \<not> Contains errStr (ErrorNotMyVbucket cfg)
            \<and> \<not> Contains errStr (ErrorInvalidVbucketBranch cfg)
            \<and> \<not> Contains errStr (ErrorInvalidKVaddrs cfg)
            \<and> (\<forall>t\<in>set timestamps. wf_ts t)
            \<and> (\<forall>t\<in>set (GetRollbackTimestamps (response a)). wf_ts t)"
  then obtain ts' where t: "recomputeAll cfg timestamps (GetRollbackTimestamps (response a)) = Some ts'"
    using recomputeAll_wf[of "GetRollbackTimestamps (response a)" timestamps cfg] by auto
  then have "shouldRetryAddInstances cfg timestamps (response a) errStr = Some (Inr ts')"
    using h by (simp add: shouldRetryAddInstances_def)
  then have "addLoop cfg worker topic instances startTime timestamps (a # rest) =
                (if clock a - startTime < MAX_PROJECTOR_RETRY_ELAPSED_TIME cfg
                 then call (MutationTopicRequest topic ''dataport'' timestamps instances)
                        (addLoop cfg worker topic instances startTime ts' rest)
                 else ([MutationTopicRequest topic ''dataport'' timestamps instances],
                       Done (worker\<lparr>err := Some timeoutError\<rparr>)))"
    using assms by simp
  then show "\<exists>timestamps'.
              map (\<lambda>t. recomputeRequestTimestamp cfg t (GetRollbackTimestamps (response a)))
                  timestamps = map Some timestamps'
            \<and> addLoop cfg worker topic instances startTime timestamps (a # rest) =
                (if clock a - startTime < MAX_PROJECTOR_RETRY_ELAPSED_TIME cfg
                 then call (MutationTopicRequest topic ''dataport'' timestamps instances)
                        (addLoop cfg worker topic instances startTime timestamps' rest)
                 else ([MutationTopicRequest topic ''dataport'' timestamps instances],
                       Done (worker\<lparr>err := Some timeoutError\<rparr>)))"
    using recomputeAll_map[OF t] by blast
next
  assume h: "buckets \<noteq> [] \<and> instances \<noteq> [] \<and> resolved r = Inr nodes \<and> donech r = pre @ w # post \<and>
          (\<forall>p\<in>set pre. err p = None) \<and> \<not> set (map snd nodes) \<subseteq> server ` set pre \<and>
          err w = Some e \<and>
          (code e = ERROR_STREAM_WRONG_VBUCKET \<or> code e = ERROR_STREAM_INVALID_TIMESTAMP
             \<or> code e = ERROR_STREAM_INVALID_KVADDRS)"
  then have u: "unreceived (remdups (map snd nodes)) pre \<noteq> []"
    by (simp add: unreceived_empty_iff)
  have w: "waitWorkers (remdups (map snd nodes)) [] (pre @ w # post) =
      (map Receive (pre @ [w]) @ map Kill (unreceived (remdups (map snd nodes)) (pre @ [w])),
       Failed e)"
    using h u by (intro waitWorkers_error) simp_all
  from h have b: "buckets \<noteq> []" and i: "instances \<noteq> []" by simp_all
  show "AddIndexToStream cfg sid buckets instances requestTimestamps (r # rs) =
            andThen
              (startRound sid buckets (AddInstances instances buckets requestTimestamps) nodes
                 @ map Receive (pre @ [w])
                 @ map Kill (unreceived (remdups (map snd nodes)) (pre @ [w])))
              (AddIndexToStream cfg sid buckets instances requestTimestamps rs)"
    using h w by (auto simp: AddIndexToStream_round[OF b i] Let_def)
qed

theorem addInstances_node_errors_witness:
  "addLoop cfg0 (newWorker ''B'' 1) ''MAINT_STREAM_TOPIC'' [5] 0 [ts7] [attemptExists, attemptOk] =
     ([MutationTopicRequest ''MAINT_STREAM_TOPIC'' ''dataport'' [ts7] [5]],
      Done ((newWorker ''B'' 1)\<lparr>err :=
              Some (NewError ERROR_STREAM_REQUEST_ERROR ''feed.topicExist'' [])\<rparr>))
   \<and> addLoop cfg0 (newWorker ''B'' 1) ''MAINT_STREAM_TOPIC'' [5] 0 [ts7] [attemptBranch, attemptOk] =
     ([MutationTopicRequest ''MAINT_STREAM_TOPIC'' ''dataport'' [ts7] [5]], Done workerB_branch)
   \<and> addLoop cfg0 (newWorker ''B'' 1) ''MAINT_STREAM_TOPIC'' [5] 0 [ts7] [attemptRefused, attemptOk] =
     ([MutationTopicRequest ''MAINT_STREAM_TOPIC'' ''dataport'' [ts7] [5],
       MutationTopicRequest ''MAINT_STREAM_TOPIC'' ''dataport'' [ts7rolled] [5]],
      Done ((newWorker ''B'' 1)\<lparr>activeTimestamps := [ts7rolled]\<rparr>))
   \<and> addLoop cfg0 (newWorker ''B'' 1) ''MAINT_STREAM_TOPIC'' [5] 0 [ts7] [attemptLate, attemptOk] =
     ([MutationTopicRequest ''MAINT_STREAM_TOPIC'' ''dataport'' [ts7] [5]],
      Done ((newWorker ''B'' 1)\<lparr>err := Some timeoutError\<rparr>))
   \<and> AddIndexToStream cfg0 1 [''b''] [5] [] [roundBranch] =
     ([GetNodeListForBuckets [''b''],
       Spawn (newWorker ''A'' 1) (AddInstances [5] [''b''] []),
       Spawn (newWorker ''B'' 1) (AddInstances [5] [''b''] []),
       Receive workerB_branch,
       Kill ''A''],
      Pending)"
proof -
  have e1: "\<not> killed attemptExists" "failure attemptExists = Some ''feed.topicExist''"
    by (simp_all add: attemptExists_def)
  have e2: "Contains ''feed.topicExist'' (ErrorTopicExist cfg0)"
    by (simp add: cfg0_def Contains_self)
  note T0 = addInstances_node_errors[OF e1, where worker = "newWorker ''B'' 1"
      and topic = "''MAINT_STREAM_TOPIC''" and instances = "[5]" and startTime = 0
      and timestamps = "[ts7]" and rest = "[attemptOk]" and cfg = cfg0]
  have "addLoop cfg0 (newWorker ''B'' 1) ''MAINT_STREAM_TOPIC'' [5] 0 [ts7] (attemptExists # [attemptOk]) =
     ([MutationTopicRequest ''MAINT_STREAM_TOPIC'' ''dataport'' [ts7] [5]],
      Done ((newWorker ''B'' 1)\<lparr>activeTimestamps := GetActiveTimestamps (response attemptExists),
              err := Some (NewError ERROR_STREAM_REQUEST_ERROR ''feed.topicExist'' [])\<rparr>))"
    using T0 e2 by blast
  then have p0: "addLoop cfg0 (newWorker ''B'' 1) ''MAINT_STREAM_TOPIC'' [5] 0 [ts7] [attemptExists, attemptOk] =
     ([MutationTopicRequest ''MAINT_STREAM_TOPIC'' ''dataport'' [ts7] [5]],
      Done ((newWorker ''B'' 1)\<lparr>err :=
              Some (NewError ERROR_STREAM_REQUEST_ERROR ''feed.topicExist'' [])\<rparr>))"
    by (simp add: attemptExists_def newWorker_def)
  have n1: "\<not> killed attemptBranch" "failure attemptBranch = Some ''feed.invalidVbucketBranch''"
    by (simp_all add: attemptBranch_def)
  have n2: "\<not> Contains ''feed.invalidVbucketBranch'' (ErrorTopicExist cfg0)"
    unfolding Contains_def cfg0_def by code_simp
  have n3: "\<not> Contains ''feed.invalidVbucketBranch'' (ErrorInconsistentFeed cfg0)"
    unfolding Contains_def cfg0_def by code_simp
  have n4: "\<not> Contains ''feed.invalidVbucketBranch'' (ErrorNotMyVbucket cfg0)"
    unfolding Contains_def cfg0_def by code_simp
  have n5: "Contains ''feed.invalidVbucketBranch'' (ErrorInvalidVbucketBranch cfg0)"
    by (simp add: cfg0_def Contains_self)
  have code: "nodeRetryCode cfg0 ''feed.invalidVbucketBranch'' = ERROR_STREAM_INVALID_TIMESTAMP"
    using n4 n5 by (simp add: nodeRetryCode_def)
  note T1 = addInstances_node_errors[OF n1, where worker = "newWorker ''B'' 1"
      and topic = "''MAINT_STREAM_TOPIC''" and instances = "[5]" and startTime = 0
      and timestamps = "[ts7]" and rest = "[attemptOk]" and buckets = "[''b'']"
      and r = roundBranch and nodes = nodesAB and pre = "[]" and w = workerB_branch
      and post = "[]" and sid = 1 and requestTimestamps = "[]" and rs = "[]" and cfg = cfg0
      and e = "NewError ERROR_STREAM_INVALID_TIMESTAMP ''feed.invalidVbucketBranch'' []"]
  have w1: "(newWorker ''B'' 1)\<lparr>activeTimestamps := GetActiveTimestamps (response attemptBranch),
        err := Some (NewError (nodeRetryCode cfg0 ''feed.invalidVbucketBranch'')
                      ''feed.invalidVbucketBranch'' [])\<rparr> = workerB_branch"
    by (simp add: code workerB_branch_def attemptBranch_def newWorker_def)
  have "addLoop cfg0 (newWorker ''B'' 1) ''MAINT_STREAM_TOPIC'' [5] 0 [ts7] (attemptBranch # [attemptOk]) =
     ([MutationTopicRequest ''MAINT_STREAM_TOPIC'' ''dataport'' [ts7] [5]],
      Done ((newWorker ''B'' 1)\<lparr>activeTimestamps := GetActiveTimestamps (response attemptBranch),
        err := Some (NewError (nodeRetryCode cfg0 ''feed.invalidVbucketBranch'')
                      ''feed.invalidVbucketBranch'' [])\<rparr>))"
    using T1 n2 n3 n5 by blast
  then have p1: "addLoop cfg0 (newWorker ''B'' 1) ''MAINT_STREAM_TOPIC'' [5] 0 [ts7] [attemptBranch, attemptOk] =
     ([MutationTopicRequest ''MAINT_STREAM_TOPIC'' ''dataport'' [ts7] [5]], Done workerB_branch)"
    unfolding w1 by simp
  have h3: "[''b''] \<noteq> [] \<and> [5::nat] \<noteq> [] \<and> resolved roundBranch = Inr nodesAB \<and>
      donech roundBranch = [] @ workerB_branch # [] \<and>
      (\<forall>p\<in>set []. err p = None) \<and> \<not> set (map snd nodesAB) \<subseteq> server ` set [] \<and>
      err workerB_branch = Some (NewError ERROR_STREAM_INVALID_TIMESTAMP ''feed.invalidVbucketBranch'' []) \<and>
      (code (NewError ERROR_STREAM_INVALID_TIMESTAMP ''feed.invalidVbucketBranch'' []) = ERROR_STREAM_WRONG_VBUCKET
       \<or> code (NewError ERROR_STREAM_INVALID_TIMESTAMP ''feed.invalidVbucketBranch'' []) = ERROR_STREAM_INVALID_TIMESTAMP
       \<or> code (NewError ERROR_STREAM_INVALID_TIMESTAMP ''feed.invalidVbucketBranch'' []) = ERROR_STREAM_INVALID_KVADDRS)"
    by (simp add: roundBranch_def nodesAB_def workerB_branch_def NewError_def)
  have u: "unreceived (remdups (map snd nodesAB)) ([] @ [workerB_branch]) = [''A'']"
    by (simp add: unreceived_def nodesAB_def workerB_branch_def newWorker_def)
  have "AddIndexToStream cfg0 1 [''b''] [5] [] [roundBranch] =
      andThen (startRound 1 [''b''] (AddInstances [5] [''b''] []) nodesAB
                 @ map Receive ([] @ [workerB_branch])
                 @ map Kill (unreceived (remdups (map snd nodesAB)) ([] @ [workerB_branch])))
              (AddIndexToStream cfg0 1 [''b''] [5] [] [])"
    using T1 h3 by blast
  then have p3: "AddIndexToStream cfg0 1 [''b''] [5] [] [roundBranch] =
     ([GetNodeListForBuckets [''b''],
       Spawn (newWorker ''A'' 1) (AddInstances [5] [''b''] []),
       Spawn (newWorker ''B'' 1) (AddInstances [5] [''b''] []),
       Receive workerB_branch,
       Kill ''A''],
      Pending)"
    unfolding u by (simp add: andThen_def startRound_def nodesAB_def AddIndexToStream_def)
  have m2: "\<not> Contains ''connection refused'' (ErrorTopicExist cfg0)"
    unfolding Contains_def cfg0_def by code_simp
  have m3: "\<not> Contains ''connection refused'' (ErrorInconsistentFeed cfg0)"
    unfolding Contains_def cfg0_def by code_simp
  have m4: "\<not> Contains ''connection refused'' (ErrorNotMyVbucket cfg0)"
    unfolding Contains_def cfg0_def by code_simp
  have m5: "\<not> Contains ''connection refused'' (ErrorInvalidVbucketBranch cfg0)"
    unfolding Contains_def cfg0_def by code_simp
  have m6: "\<not> Contains ''connection refused'' (ErrorInvalidKVaddrs cfg0)"
    unfolding Contains_def cfg0_def by code_simp
  have rec: "map (\<lambda>t. recomputeRequestTimestamp cfg0 t [rb7]) [ts7] = map Some [ts7rolled]"
    by (simp add: recomputeRequestTimestamp_def ts7_def rb7_def cfg0_def
        NewTsVbuuid_def findTimestampOffsetForVb_def appendFrom_def index_def Append_def
        ts7rolled_def)
  have m1: "\<not> killed attemptRefused" "failure attemptRefused = Some ''connection refused''"
    by (simp_all add: attemptRefused_def)
  have m7: "(\<forall>t\<in>set [ts7]. wf_ts t) \<and> (\<forall>t\<in>set (GetRollbackTimestamps (response attemptRefused)). wf_ts t)"
    by (simp add: wf_ts_def ts7_def rb7_def attemptRefused_def)
  have c2: "clock attemptRefused - 0 < MAX_PROJECTOR_RETRY_ELAPSED_TIME cfg0"
    by (simp add: attemptRefused_def cfg0_def)
  note T2 = addInstances_node_errors[OF m1, where worker = "newWorker ''B'' 1"
      and topic = "''MAINT_STREAM_TOPIC''" and instances = "[5]" and startTime = 0
      and timestamps = "[ts7]" and rest = "[attemptOk]" and cfg = cfg0]
  from T2 m2 m3 m4 m5 m6 m7 obtain ts' where
    r: "map (\<lambda>t. recomputeRequestTimestamp cfg0 t (GetRollbackTimestamps (response attemptRefused))) [ts7]
          = map Some ts'"
    and l: "addLoop cfg0 (newWorker ''B'' 1) ''MAINT_STREAM_TOPIC'' [5] 0 [ts7] (attemptRefused # [attemptOk]) =
        (if clock attemptRefused - 0 < MAX_PROJECTOR_RETRY_ELAPSED_TIME cfg0
         then call (MutationTopicRequest ''MAINT_STREAM_TOPIC'' ''dataport'' [ts7] [5])
                (addLoop cfg0 (newWorker ''B'' 1) ''MAINT_STREAM_TOPIC'' [5] 0 ts' [attemptOk])
         else ([MutationTopicRequest ''MAINT_STREAM_TOPIC'' ''dataport'' [ts7] [5]],
               Done ((newWorker ''B'' 1)\<lparr>err := Some timeoutError\<rparr>)))"
    by blast
  have "GetRollbackTimestamps (response attemptRefused) = [rb7]" by (simp add: attemptRefused_def)
  with r rec have "map Some ts' = map Some [ts7rolled]" by simp
  then have "ts' = [ts7rolled]" by (simp add: map_eq_Cons_conv)
  with l c2 have p2: "addLoop cfg0 (newWorker ''B'' 1) ''MAINT_STREAM_TOPIC'' [5] 0 [ts7] [attemptRefused, attemptOk] =
     ([MutationTopicRequest ''MAINT_STREAM_TOPIC'' ''dataport'' [ts7] [5],
       MutationTopicRequest ''MAINT_STREAM_TOPIC'' ''dataport'' [ts7rolled] [5]],
      Done ((newWorker ''B'' 1)\<lparr>activeTimestamps := [ts7rolled]\<rparr>))"
    by (simp add: call_def attemptOk_def newWorker_def)
  have l1: "\<not> killed attemptLate" "failure attemptLate = Some ''connection refused''"
    by (simp_all add: attemptLate_def)
  have l7: "(\<forall>t\<in>set [ts7]. wf_ts t) \<and> (\<forall>t\<in>set (GetRollbackTimestamps (response attemptLate)). wf_ts t)"
    by (simp add: wf_ts_def ts7_def rb7_def attemptLate_def)
  have c4: "\<not> clock attemptLate - 0 < MAX_PROJECTOR_RETRY_ELAPSED_TIME cfg0"
    by (simp add: attemptLate_def cfg0_def)
  note T3 = addInstances_node_errors[OF l1, where worker = "newWorker ''B'' 1"
      and topic = "''MAINT_STREAM_TOPIC''" and instances = "[5]" and startTime = 0
      and timestamps = "[ts7]" and rest = "[attemptOk]" and cfg = cfg0]
  from T3 m2 m3 m4 m5 m6 l7 obtain ts'' where
    "addLoop cfg0 (newWorker ''B'' 1) ''MAINT_STREAM_TOPIC'' [5] 0 [ts7] (attemptLate # [attemptOk]) =
        (if clock attemptLate - 0 < MAX_PROJECTOR_RETRY_ELAPSED_TIME cfg0
         then call (MutationTopicRequest ''MAINT_STREAM_TOPIC'' ''dataport'' [ts7] [5])
                (addLoop cfg0 (newWorker ''B'' 1) ''MAINT_STREAM_TOPIC'' [5] 0 ts'' [attemptOk])
         else ([MutationTopicRequest ''MAINT_STREAM_TOPIC'' ''dataport'' [ts7] [5]],
               Done ((newWorker ''B'' 1)\<lparr>err := Some timeoutError\<rparr>)))"
    by blast
  with c4 have p4: "addLoop cfg0 (newWorker ''B'' 1) ''MAINT_STREAM_TOPIC'' [5] 0 [ts7] [attemptLate, attemptOk] =
     ([MutationTopicRequest ''MAINT_STREAM_TOPIC'' ''dataport'' [ts7] [5]],
      Done ((newWorker ''B'' 1)\<lparr>err := Some timeoutError\<rparr>))"
    by simp
  show ?thesis using p0 p1 p2 p3 p4 by simp
qed













section \<open>Unknown stream identifiers\<close>







end
